(* ===== verification/Prelude.thy ===== *)
theory Prelude
  imports Main "HOL-Library.Sublist" "HOL-Library.Multiset"
begin

text \<open>
  Shared vocabulary of the TaskManager development: the collections of equations the
  component proofs unfold, and generic facts about lists filtered by a key and about
  association lists keyed by a projection.  The store of the component is a JavaScript
  array that the code only ever filters by id or extends at its end, so these are the
  list facts every component proof needs; the grid shows that array through a list of
  positions, hence the facts on views through positions.
\<close>

named_theorems store_simps "equations of the task-store operations"
named_theorems app_simps "equations of the TaskManager component's handlers and effects"

text \<open>An association list keyed by a projection: the abstract view of an id-keyed array.\<close>

definition keyed :: "('a \<Rightarrow> 'k) \<Rightarrow> 'a list \<Rightarrow> ('k \<times> 'a) list" where
  "keyed f xs = map (\<lambda>x. (f x, x)) xs"

lemma keyed_simps [simp]:
  "keyed f [] = []"
  "keyed f (x # xs) = (f x, x) # keyed f xs"
  "keyed f (xs @ ys) = keyed f xs @ keyed f ys"
  by (simp_all add: keyed_def)

lemma map_fst_keyed [simp]: "map fst (keyed f xs) = map f xs"
  by (induction xs) simp_all

subsection \<open>Filtering out one key\<close>

lemma count_list_map_le_length: "count_list (map f xs) k \<le> length xs"
  by (induction xs) auto

lemma length_filter_key_neq:
  "length (filter (\<lambda>x. f x \<noteq> k) xs) = length xs - count_list (map f xs) k"
proof (induction xs)
  case Nil
  then show ?case by simp
next
  case (Cons x xs)
  with count_list_map_le_length [of f xs k] show ?case by auto
qed

lemma count_list_distinct:
  "distinct xs \<Longrightarrow> count_list xs k = (if k \<in> set xs then 1 else 0)"
  by (induction xs) auto

lemma filter_key_neq_notin [simp]:
  "k \<notin> f ` set xs \<Longrightarrow> filter (\<lambda>x. f x \<noteq> k) xs = xs"
  by (induction xs) auto

lemma map_of_keyed_filter_neq:
  "map_of (keyed f (filter (\<lambda>x. f x \<noteq> k) xs)) = (map_of (keyed f xs))(k := None)"
  by (induction xs) (auto simp: fun_eq_iff)

lemma map_of_keyed_snoc_fresh:
  "k \<notin> f ` set xs \<Longrightarrow> f y = k \<Longrightarrow>
   map_of (keyed f (xs @ [y])) = (map_of (keyed f xs))(k \<mapsto> y)"
  by (induction xs) (auto simp: fun_eq_iff)

subsection \<open>Views of a list through positions\<close>

text \<open>
  A view shows the elements of a list at a list of positions.  Sorting the positions by a
  key of the elements they point to is sorting the elements by that key, and a view through
  distinct positions shows each element at most once.
\<close>

lemma map_insort_key: "map g (insort_key (f \<circ> g) x xs) = insort_key f (g x) (map g xs)"
  by (induction xs) auto

lemma map_sort_key: "map g (sort_key (f \<circ> g) xs) = sort_key f (map g xs)"
  by (induction xs) (simp_all add: map_insort_key [unfolded comp_def])

lemma map_nth_upt: "map (\<lambda>k. xs ! k) [0..<length xs] = xs"
  by (simp add: map_nth)

lemma map_nth_filter_upt:
  "map (\<lambda>k. xs ! k) (filter (\<lambda>k. P (xs ! k)) [0..<length xs]) = filter P xs"
proof -
  have "filter P (map (\<lambda>k. xs ! k) [0..<length xs]) =
        map (\<lambda>k. xs ! k) (filter (\<lambda>k. P (xs ! k)) [0..<length xs])"
    by (simp add: filter_map comp_def)
  then show ?thesis by (simp add: map_nth_upt)
qed

lemma mset_distinct_le:
  "distinct xs \<Longrightarrow> distinct ys \<Longrightarrow> set xs \<subseteq> set ys \<Longrightarrow> mset xs \<subseteq># mset ys"
  by (metis mset_set_set finite_set subset_imp_msubset_mset_set)

lemma map_nth_update_distinct:
  assumes "distinct ks" and "n < length ks" and "ks ! n < length xs"
  shows "map (\<lambda>k. (xs[ks ! n := y]) ! k) ks = (map (\<lambda>k. xs ! k) ks)[n := y]"
proof (rule nth_equalityI)
  fix i assume "i < length (map (\<lambda>k. (xs[ks ! n := y]) ! k) ks)"
  with assms show "map (\<lambda>k. (xs[ks ! n := y]) ! k) ks ! i = (map (\<lambda>k. xs ! k) ks)[n := y] ! i"
    by (cases "i = n") (auto simp: nth_eq_iff_index_eq)
qed simp

end
