(* ===== verification/Task.thy ===== *)
theory Task
  imports Prelude
begin

text \<open>
  The data model of \<^verbatim>\<open>src/src/TaskManager.jsx\<close>.  The form state \<^verbatim>\<open>newTask\<close>
  (lines 9--13) is an object with the fields \<^verbatim>\<open>title\<close>, \<^verbatim>\<open>description\<close> and
  \<^verbatim>\<open>status\<close>; a task is that object extended with an \<^verbatim>\<open>id\<close>
  (\<^verbatim>\<open>{id: tasks.length + 1, ...newTask}\<close>, lines 69--72, and the seed objects of
  lines 20--25), so \<open>task\<close> is the record \<open>draft\<close> extended by \<open>task_id\<close>.
  Statuses are the strings the code writes and compares; the three values the status
  selects offer (lines 44, 127--129) are \<open>status_options\<close>, and the filter select adds
  the empty string for "All" (lines 150--153).  JavaScript's truthiness of a string is
  non-emptiness, which is how the guards of lines 68 and 85 read.  Ids are JavaScript
  numbers that stay far below \<open>2^53\<close> (a seed id or an array length plus one), so they are
  integers here.
\<close>

record draft =
  title :: string
  description :: string
  status :: string

record task = draft +
  task_id :: int

definition status_options :: "string list" where
  "status_options = [''To Do'', ''In Progress'', ''Done'']"

definition filter_options :: "string list" where
  "filter_options = [''''] @ status_options"

definition valid_status :: "string \<Rightarrow> bool" where
  "valid_status s \<longleftrightarrow> s \<in> set status_options"

definition empty_draft :: draft where
  "empty_draft = \<lparr>title = '''', description = '''', status = ''To Do''\<rparr>"

text \<open>
  The store invariant of the specification (section 3): ids are unique and every status is
  one of the three values.  It is a property to check of each operation, not a guard the
  code tests.
\<close>

definition store_inv :: "task list \<Rightarrow> bool" where
  "store_inv ts \<longleftrightarrow> distinct (map task_id ts) \<and> list_all (\<lambda>t. valid_status (status t)) ts"

lemma valid_status_iff:
  "valid_status s \<longleftrightarrow> s = ''To Do'' \<or> s = ''In Progress'' \<or> s = ''Done''"
  by (auto simp: valid_status_def status_options_def)

lemma valid_status_options_nth:
  "i < length status_options \<Longrightarrow> valid_status (status_options ! i)"
  by (simp add: valid_status_def)

lemma valid_status_empty_draft [simp]: "valid_status (status empty_draft)"
  by (simp add: empty_draft_def valid_status_iff)

lemma length_status_options [simp]: "length status_options = 3"
  and length_filter_options [simp]: "length filter_options = 4"
  by (simp_all add: status_options_def filter_options_def)

lemma filter_options_nth:
  "i < length filter_options \<Longrightarrow>
   filter_options ! i = '''' \<or> valid_status (filter_options ! i)"
  by (auto simp: filter_options_def valid_status_def nth_Cons' )

lemma store_inv_Nil [simp]: "store_inv []"
  by (simp add: store_inv_def)

end
