(* ===== verification/Store.thy ===== *)
theory Store
  imports Task
begin

text \<open>
  The Task Store: the array held in the state hook \<^verbatim>\<open>tasks\<close>
  (\<^verbatim>\<open>useState([])\<close>, line 7).  The code changes it in three places only, each by
  building a new array: replace-all with the seed tasks (line 26), append-one in
  \<^verbatim>\<open>handleAddTask\<close> (lines 69--73) and remove-by-id in the delete column's
  \<^verbatim>\<open>cellClick\<close> (line 52).  This theory holds the last two as list functions, the
  abstract view of the store as a finite map from ids to tasks, and the refinement lemmas
  that say when the list operations implement the map operations.
\<close>

definition new_task_of :: "task list \<Rightarrow> draft \<Rightarrow> task" where
  "new_task_of ts d =
     \<lparr>title = title d, description = description d, status = status d,
      task_id = int (length ts) + 1\<rparr>"

definition append_task :: "task list \<Rightarrow> draft \<Rightarrow> task list" where
  "append_task ts d = ts @ [new_task_of ts d]"

definition delete_by_id :: "task list \<Rightarrow> int \<Rightarrow> task list" where
  "delete_by_id ts i = filter (\<lambda>t. task_id t \<noteq> i) ts"

text \<open>The abstract store: which task each id names (the first one, if ids repeat).\<close>

definition store_map :: "task list \<Rightarrow> int \<rightharpoonup> task" where
  "store_map ts = map_of (keyed task_id ts)"

text \<open>
  A collision-free id scheme, as the specification asks for ("a locally generated sequence
  value", unique in the store): one more than the largest id present.  It is not what the
  code computes; it is the reference the code's \<^verbatim>\<open>tasks.length + 1\<close> is compared
  with below.
\<close>

definition next_id :: "task list \<Rightarrow> int" where
  "next_id ts = foldr max (map task_id ts) 0 + 1"

lemmas store_defs [store_simps] = new_task_of_def append_task_def delete_by_id_def

subsection \<open>Append-one\<close>

lemma task_id_new_task_of [simp]: "task_id (new_task_of ts d) = int (length ts) + 1"
  and status_new_task_of [simp]: "status (new_task_of ts d) = status d"
  and title_new_task_of [simp]: "title (new_task_of ts d) = title d"
  and description_new_task_of [simp]: "description (new_task_of ts d) = description d"
  by (simp_all add: new_task_of_def)

lemma length_append_task [simp]: "length (append_task ts d) = Suc (length ts)"
  by (simp add: append_task_def)

text \<open>The id the code computes is fresh exactly when no task already carries it.\<close>

lemma distinct_append_task_iff:
  "distinct (map task_id (append_task ts d)) \<longleftrightarrow>
   distinct (map task_id ts) \<and> int (length ts) + 1 \<notin> set (map task_id ts)"
  by (auto simp: append_task_def)

lemma store_inv_append_task:
  assumes "store_inv ts" and "valid_status (status d)"
    and "int (length ts) + 1 \<notin> set (map task_id ts)"
  shows "store_inv (append_task ts d)"
  using assms by (simp add: store_inv_def append_task_def)

lemma list_all_append_task [simp]:
  "list_all P (append_task ts d) \<longleftrightarrow> list_all P ts \<and> P (new_task_of ts d)"
  by (simp add: append_task_def)

subsection \<open>Remove-by-id\<close>

lemma set_delete_by_id:
  "set (delete_by_id ts i) = {t \<in> set ts. task_id t \<noteq> i}"
  by (auto simp: delete_by_id_def)

lemma subseq_delete_by_id: "subseq (delete_by_id ts i) ts"
  by (simp add: delete_by_id_def subseq_filter_left)

lemma length_delete_by_id:
  "length (delete_by_id ts i) = length ts - count_list (map task_id ts) i"
  by (simp add: delete_by_id_def length_filter_key_neq)

lemma length_delete_by_id_less:
  "t \<in> set ts \<Longrightarrow> length (delete_by_id ts (task_id t)) < length ts"
proof -
  assume "t \<in> set ts"
  then have "count_list (map task_id ts) (task_id t) \<noteq> 0" by (simp add: count_list_0_iff)
  moreover have "ts \<noteq> []" using \<open>t \<in> set ts\<close> by auto
  ultimately show ?thesis by (simp add: length_delete_by_id)
qed

lemma list_all_delete_by_id [simp]: "list_all P ts \<Longrightarrow> list_all P (delete_by_id ts i)"
  by (simp add: delete_by_id_def list_all_iff)

subsection \<open>The reference id scheme\<close>

lemma foldr_max_ge: "x \<in> set xs \<Longrightarrow> x \<le> foldr max xs (0::int)"
  by (induction xs) auto

lemma foldr_max_le: "0 \<le> m \<Longrightarrow> \<forall>x \<in> set xs. x \<le> m \<Longrightarrow> foldr max xs (0::int) \<le> m"
  by (induction xs) auto

lemma foldr_max_upto: "foldr max (map int [1..<Suc n]) (0::int) = int n"
proof (rule antisym)
  show "foldr max (map int [1..<Suc n]) 0 \<le> int n" by (rule foldr_max_le) auto
  show "int n \<le> foldr max (map int [1..<Suc n]) 0"
  proof (cases n)
    case 0
    then show ?thesis by simp
  next
    case (Suc m)
    then show ?thesis by (intro foldr_max_ge) auto
  qed
qed

subsection \<open>Properties of the store operations\<close>

text \<open>
  C7: remove-by-id (\<^verbatim>\<open>tasks.filter((task) => task.id !== row.getData().id)\<close>) keeps
  exactly the tasks with another id, in their order, and removes as many entries as carry
  the id: every one of them, not just one.
\<close>

theorem delete_by_id_spec:
  "set (delete_by_id ts i) = {t \<in> set ts. task_id t \<noteq> i} \<and> subseq (delete_by_id ts i) ts \<and>
   length (delete_by_id ts i) = length ts - count_list (map task_id ts) i"
  by (simp add: set_delete_by_id subseq_delete_by_id length_delete_by_id)

text \<open>
  C8: when ids are unique, deleting an id the store holds removes exactly one entry, the
  task with that id, and leaves the tasks before and after it unchanged and in order.
\<close>

theorem delete_exactly_one:
  assumes "distinct (map task_id ts)" and "i \<in> task_id ` set ts"
  shows "\<exists>xs t ys. ts = xs @ t # ys \<and> task_id t = i \<and> delete_by_id ts i = xs @ ys"
proof -
  from assms(2) obtain t where t: "t \<in> set ts" "task_id t = i" by blast
  then obtain xs ys where ts: "ts = xs @ t # ys" by (meson split_list)
  with assms(1) t(2) have "i \<notin> task_id ` set xs" "i \<notin> task_id ` set ys" by auto
  with ts t(2) have "delete_by_id ts i = xs @ ys" by (simp add: delete_by_id_def)
  with ts t(2) show ?thesis by blast
qed

theorem delete_exactly_one_witness:
  "distinct (map task_id [new_task_of [] empty_draft]) \<and> 1 \<in> task_id ` set [new_task_of [] empty_draft] \<and>
   (\<exists>xs t ys. [new_task_of [] empty_draft] = xs @ t # ys \<and> task_id t = 1 \<and>
      delete_by_id [new_task_of [] empty_draft] 1 = xs @ ys)"
  using delete_exactly_one [of "[new_task_of [] empty_draft]" 1] by simp

text \<open>
  C9: remove-by-id refines deletion from the abstract store: the id maps to nothing
  afterwards and every other id keeps its task.
\<close>

theorem store_map_delete:
  "store_map (delete_by_id ts i) = (store_map ts)(i := None)"
  by (simp add: store_map_def delete_by_id_def map_of_keyed_filter_neq)

text \<open>
  C10: append-one refines insertion into the abstract store exactly when the computed id
  \<^verbatim>\<open>tasks.length + 1\<close> is not taken yet: then the new id maps to the new task and every
  other id keeps its task.
\<close>

theorem store_map_append:
  assumes "int (length ts) + 1 \<notin> set (map task_id ts)"
  shows "store_map (append_task ts d) = (store_map ts)(int (length ts) + 1 \<mapsto> new_task_of ts d)"
  using assms unfolding store_map_def append_task_def
  by (intro map_of_keyed_snoc_fresh) simp_all

theorem store_map_append_witness:
  "int (length [new_task_of [] empty_draft]) + 1 \<notin> set (map task_id [new_task_of [] empty_draft]) \<and>
   store_map (append_task [new_task_of [] empty_draft] empty_draft) =
     (store_map [new_task_of [] empty_draft])(2 \<mapsto> new_task_of [new_task_of [] empty_draft] empty_draft)"
  using store_map_append [of "[new_task_of [] empty_draft]" empty_draft] by simp

text \<open>
  C31: append-one and remove-by-id are inverse: when the computed id is fresh, deleting
  the id of the task just added gives back the store as it was.
\<close>

theorem append_delete_roundtrip:
  assumes "int (length ts) + 1 \<notin> task_id ` set ts"
  shows "delete_by_id (append_task ts d) (int (length ts) + 1) = ts"
  using assms by (simp add: append_task_def delete_by_id_def)

theorem append_delete_roundtrip_witness:
  "int (length [new_task_of [] empty_draft]) + 1 \<notin> task_id ` set [new_task_of [] empty_draft] \<and>
   delete_by_id (append_task [new_task_of [] empty_draft] empty_draft) 2 = [new_task_of [] empty_draft]"
  using append_delete_roundtrip [of "[new_task_of [] empty_draft]" empty_draft] by simp

text \<open>
  C33: as long as the store holds the ids \<open>1, ..., n\<close> in order (no delete has happened
  and the seed was numbered that way), the code's id \<^verbatim>\<open>tasks.length + 1\<close> is the
  reference id \<open>next_id\<close>, and the store keeps that shape after the append.
\<close>

theorem new_id_agrees_next_id:
  assumes "map task_id ts = map int [1..<Suc (length ts)]"
  shows "task_id (new_task_of ts d) = next_id ts \<and>
    map task_id (append_task ts d) = map int [1..<Suc (length (append_task ts d))]"
proof
  have "next_id ts = int (length ts) + 1"
    using assms foldr_max_upto [of "length ts"] by (simp add: next_id_def del: upt_Suc)
  then show "task_id (new_task_of ts d) = next_id ts" by simp
  have "[1..<Suc (Suc (length ts))] = [1..<Suc (length ts)] @ [Suc (length ts)]"
    by (rule upt_Suc_append) simp
  with assms show "map task_id (append_task ts d) = map int [1..<Suc (length (append_task ts d))]"
    by (simp add: append_task_def del: upt_Suc)
qed

theorem new_id_agrees_next_id_witness:
  "map task_id [new_task_of [] empty_draft] = map int [1..<Suc (length [new_task_of [] empty_draft])] \<and>
   task_id (new_task_of [new_task_of [] empty_draft] empty_draft) = next_id [new_task_of [] empty_draft] \<and>
   map task_id (append_task [new_task_of [] empty_draft] empty_draft) = map int [1..<Suc (length (append_task [new_task_of [] empty_draft] empty_draft))]"
  using new_id_agrees_next_id [of "[new_task_of [] empty_draft]" empty_draft] by simp

end
