(* ===== verification/Seed.thy ===== *)
theory Seed
  imports Store
begin

text \<open>
  The Remote Seed Loader: the first effect of the component (lines 16--28).  It fetches
  \<^verbatim>\<open>https://jsonplaceholder.typicode.com/todos\<close> once, reads the body as JSON, keeps
  the first 20 records (\<^verbatim>\<open>data.slice(0, 20)\<close>) and maps each to a task.  A record of
  the remote API is \<open>todo\<close>; of its fields the code reads \<^verbatim>\<open>id\<close>, \<^verbatim>\<open>title\<close> and
  \<^verbatim>\<open>completed\<close>, named with a \<open>todo_\<close> prefix here because record fields share one
  name space.  The network itself is outside the model: the settled promise is an input
  of the component model (\<open>TaskManager\<close>), either the parsed array or a failure.
\<close>

record todo =
  todo_id :: int
  todo_title :: string
  completed :: bool

definition seed_description :: string where
  "seed_description = ''No description provided''"

definition seed_task :: "todo \<Rightarrow> task" where
  "seed_task r =
     \<lparr>title = todo_title r, description = seed_description,
      status = (if completed r then ''Done'' else ''To Do''), task_id = todo_id r\<rparr>"

definition initial_tasks :: "todo list \<Rightarrow> task list" where
  "initial_tasks data = map seed_task (take 20 data)"

lemma seed_task_fields [simp]:
  "task_id (seed_task r) = todo_id r"
  "title (seed_task r) = todo_title r"
  "description (seed_task r) = seed_description"
  "status (seed_task r) = (if completed r then ''Done'' else ''To Do'')"
  by (simp_all add: seed_task_def)

lemma valid_status_seed_task [simp]: "valid_status (status (seed_task r))"
  by (simp add: valid_status_iff)

lemma map_task_id_initial_tasks:
  "map task_id (initial_tasks data) = map todo_id (take 20 data)"
  by (simp add: initial_tasks_def)

lemma valid_status_initial_tasks [simp]:
  "list_all (\<lambda>t. valid_status (status t)) (initial_tasks data)"
  by (simp add: initial_tasks_def list_all_iff valid_status_iff)

subsection \<open>Properties of the seed loader\<close>

text \<open>
  C17: the seed is the first 20 records (or all, if fewer), in order, each mapped to a task
  with the record's id and title, the placeholder description "No description provided",
  and status "Done" for a completed record and "To Do" otherwise.
\<close>

theorem initial_tasks_spec:
  "length (initial_tasks data) = min 20 (length data) \<and>
   (\<forall>k < length (initial_tasks data).
      initial_tasks data ! k =
        \<lparr>title = todo_title (data ! k), description = ''No description provided'',
         status = (if completed (data ! k) then ''Done'' else ''To Do''),
         task_id = todo_id (data ! k)\<rparr>)"
  by (simp add: initial_tasks_def seed_task_def seed_description_def)

theorem initial_tasks_spec_witness:
  "length (initial_tasks [\<lparr>todo_id = 7, todo_title = ''X'', completed = True\<rparr>]) = 1 \<and>
   initial_tasks [\<lparr>todo_id = 7, todo_title = ''X'', completed = True\<rparr>] ! 0 =
     \<lparr>title = ''X'', description = ''No description provided'', status = ''Done'', task_id = 7\<rparr>"
  using initial_tasks_spec [of "[\<lparr>todo_id = 7, todo_title = ''X'', completed = True\<rparr>]"] by simp

text \<open>
  C18: the seed satisfies the store invariant exactly when the ids of the first 20 remote
  records are distinct: statuses are always valid, and the code relies on the API for
  uniqueness.
\<close>

theorem initial_tasks_store_inv:
  "store_inv (initial_tasks data) \<longleftrightarrow> distinct (map todo_id (take 20 data))"
  by (simp add: store_inv_def map_task_id_initial_tasks)

end
