(* ===== verification/Grid.thy ===== *)
theory Grid
  imports Task
begin

text \<open>
  The Grid View Adapter: a Tabulator instance built by the second effect (lines 31--64)
  on the \<^verbatim>\<open>task-table\<close> element.  Tabulator is a library, not code of this
  repository; what the component relies on is modelled here from the calls it makes and the
  column definitions it passes (lines 36--57).  An instance holds
  \<^item> \<open>grid_rows\<close>: its row data, the \<^verbatim>\<open>data: tasks\<close> option of line 34.  Tabulator
    keeps the objects of that array as its row objects, so the store and the grid share them;
  \<^item> \<open>grid_filter\<close>: the filter on the \<^verbatim>\<open>status\<close> field set by
    \<^verbatim>\<open>setFilter('status', '=', v)\<close> (line 86), \<open>None\<close> after
    \<^verbatim>\<open>clearFilter()\<close> (line 88) and on construction;
  \<^item> \<open>grid_sort\<close>: the active header sort.  No column sets \<^verbatim>\<open>headerSort: false\<close>,
    so a click on any column header sorts the rows by that column, ascending first and then
    toggling;
  \<^item> \<open>grid_view\<close>: the displayed rows, top to bottom, as positions in the row data;
  \<^item> \<open>grid_tasks\<close>: the array \<^verbatim>\<open>tasks\<close> that the delete column's
    \<^verbatim>\<open>cellClick\<close> closure captured when the effect ran (line 52).

  Tabulator computes the displayed rows in stages: the rows in data order, filtered, then
  stably sorted by the active sorter.  Setting or clearing the filter re-runs both stages on
  the current row values (\<open>refresh_view\<close>); a header click re-runs only the sort stage on
  the rows the last filtering kept (\<open>header_sort\<close>); a cell edit runs neither, so an
  edited row stays where it is shown until the next filtering.  The column sorters
  (numeric for the id, \<^verbatim>\<open>localeCompare\<close> on strings for the other columns) depend on
  the browser's collation, which is not part of the program: a header click therefore
  carries the rank its sorter gives each string, and every property below holds for every
  such rank.  The Actions column has no field; sorting by it compares equal values and keeps
  the data order.

  The column definitions (lines 37--45) make the id read-only and give the title and the
  description a free-text editor and the status a select editor over the three statuses.
  An editor writes the new value into the row's object (\<open>edit_row\<close>); no callback of
  the component is involved.
\<close>

datatype column = ColId | ColTitle | ColDescription | ColStatus | ColActions

text \<open>A sorter: the column, whether it sorts ascending, and the rank of strings.\<close>

type_synonym sorter = "column \<times> bool \<times> (string \<Rightarrow> int)"

record grid =
  grid_rows :: "task list"
  grid_filter :: "string option"
  grid_sort :: "sorter option"
  grid_view :: "nat list"
  grid_tasks :: "task list"

text \<open>A finished edit of one cell: the text typed, or the index of the option picked.\<close>

datatype cell_edit = EditTitle string | EditDescription string | EditStatus nat

fun sort_value :: "(string \<Rightarrow> int) \<Rightarrow> column \<Rightarrow> task \<Rightarrow> int" where
  "sort_value r ColId t = task_id t"
| "sort_value r ColTitle t = r (title t)"
| "sort_value r ColDescription t = r (description t)"
| "sort_value r ColStatus t = r (status t)"
| "sort_value r ColActions t = 0"

text \<open>
  The key a sorter orders by: descending order is the ascending comparator negated, so rows
  with equal values keep their relative order in both directions.
\<close>

definition sort_rank :: "sorter \<Rightarrow> task \<Rightarrow> int" where
  "sort_rank so t = (case so of (c, asc, r) \<Rightarrow> if asc then sort_value r c t else - sort_value r c t)"

fun sort_rows :: "sorter option \<Rightarrow> task list \<Rightarrow> task list" where
  "sort_rows None ts = ts"
| "sort_rows (Some so) ts = sort_key (sort_rank so) ts"

fun order_positions :: "sorter option \<Rightarrow> task list \<Rightarrow> nat list \<Rightarrow> nat list" where
  "order_positions None rows ks = ks"
| "order_positions (Some so) rows ks = sort_key (\<lambda>k. sort_rank so (rows ! k)) ks"

definition new_table :: "task list \<Rightarrow> grid" where
  "new_table ts =
     \<lparr>grid_rows = ts, grid_filter = None, grid_sort = None, grid_view = [0..<length ts],
      grid_tasks = ts\<rparr>"

text \<open>Whether a row passes the instance's filter.\<close>

definition row_filter :: "grid \<Rightarrow> task \<Rightarrow> bool" where
  "row_filter g t = (case grid_filter g of None \<Rightarrow> True | Some v \<Rightarrow> status t = v)"

definition refresh_view :: "grid \<Rightarrow> grid" where
  "refresh_view g =
     g\<lparr>grid_view := order_positions (grid_sort g) (grid_rows g)
        (filter (\<lambda>k. row_filter g (grid_rows g ! k)) [0..<length (grid_rows g)])\<rparr>"

definition status_filter :: "string \<Rightarrow> grid \<Rightarrow> grid" where
  "status_filter v g =
     refresh_view (if v \<noteq> '''' then g\<lparr>grid_filter := Some v\<rparr> else g\<lparr>grid_filter := None\<rparr>)"

text \<open>The direction of a click on a header: ascending, unless that column is already sorted ascending.\<close>

definition next_dir :: "column \<Rightarrow> sorter option \<Rightarrow> bool" where
  "next_dir c so = (case so of None \<Rightarrow> True | Some (c', asc, _) \<Rightarrow> c' \<noteq> c \<or> \<not> asc)"

definition header_sort :: "column \<Rightarrow> (string \<Rightarrow> int) \<Rightarrow> grid \<Rightarrow> grid" where
  "header_sort c r g =
     (let so = Some (c, next_dir c (grid_sort g), r)
      in g\<lparr>grid_sort := so, grid_view := order_positions so (grid_rows g) (sort (grid_view g))\<rparr>)"

definition visible_rows :: "grid \<Rightarrow> task list" where
  "visible_rows g = map (\<lambda>k. grid_rows g ! k) (grid_view g)"

text \<open>
  What an editor writes into the row object.  The id column has \<^verbatim>\<open>editor: false\<close>,
  so there is no edit of the id; the select editor offers only the three statuses.
\<close>

fun edit_row :: "cell_edit \<Rightarrow> task \<Rightarrow> task" where
  "edit_row (EditTitle v) t = t\<lparr>title := v\<rparr>"
| "edit_row (EditDescription v) t = t\<lparr>description := v\<rparr>"
| "edit_row (EditStatus i) t =
     (if i < length status_options then t\<lparr>status := status_options ! i\<rparr> else t)"

text \<open>
  The view shows each row at most once and only rows that exist, and all rows when no filter
  is set.
\<close>

definition view_ok :: "grid \<Rightarrow> bool" where
  "view_ok g \<longleftrightarrow> distinct (grid_view g) \<and> set (grid_view g) \<subseteq> set [0..<length (grid_rows g)] \<and>
     (grid_filter g = None \<longrightarrow> set (grid_view g) = set [0..<length (grid_rows g)])"

lemma new_table_fields [simp]:
  "grid_rows (new_table ts) = ts"
  "grid_filter (new_table ts) = None"
  "grid_sort (new_table ts) = None"
  "grid_view (new_table ts) = [0..<length ts]"
  "grid_tasks (new_table ts) = ts"
  by (simp_all add: new_table_def)

lemma visible_rows_new_table [simp]: "visible_rows (new_table ts) = ts"
  by (simp add: visible_rows_def map_nth_upt)

lemma view_ok_new_table [simp]: "view_ok (new_table ts)"
  by (simp add: view_ok_def)

subsection \<open>Sorting positions and sorting rows\<close>

lemma map_order_positions:
  "map (\<lambda>k. rows ! k) (order_positions so rows ks) = sort_rows so (map (\<lambda>k. rows ! k) ks)"
proof (cases so)
  case (Some x)
  have "map (\<lambda>k. rows ! k) (sort_key (sort_rank x \<circ> (\<lambda>k. rows ! k)) ks) =
        sort_key (sort_rank x) (map (\<lambda>k. rows ! k) ks)" by (rule map_sort_key)
  with Some show ?thesis by (simp add: comp_def)
qed simp

lemma set_order_positions [simp]: "set (order_positions so rows ks) = set ks"
  by (cases so) simp_all

lemma distinct_order_positions [simp]: "distinct (order_positions so rows ks) = distinct ks"
  by (cases so) simp_all

lemma mset_order_positions [simp]: "mset (order_positions so rows ks) = mset ks"
  by (cases so) simp_all

lemma mset_sort_rows [simp]: "mset (sort_rows so ts) = mset ts"
  by (cases so) simp_all

lemma sorted_sort_rows: "sorted (map (sort_rank so) (sort_rows (Some so) ts))"
  by simp

subsection \<open>Filtering\<close>

lemma status_filter_fields [simp]:
  "grid_rows (status_filter v g) = grid_rows g"
  "grid_tasks (status_filter v g) = grid_tasks g"
  "grid_sort (status_filter v g) = grid_sort g"
  "grid_filter (status_filter v g) = (if v = '''' then None else Some v)"
  by (simp_all add: status_filter_def refresh_view_def)

lemma visible_rows_status_filter:
  "visible_rows (status_filter v g) =
     sort_rows (grid_sort g) (if v = '''' then grid_rows g else filter (\<lambda>t. status t = v) (grid_rows g))"
  using map_nth_filter_upt [of "grid_rows g" "\<lambda>t. status t = v"]
  by (simp add: visible_rows_def status_filter_def refresh_view_def row_filter_def
      map_order_positions map_nth_upt)

lemma view_ok_status_filter [simp]: "view_ok (status_filter v g)"
  by (auto simp: view_ok_def status_filter_def refresh_view_def row_filter_def)

subsection \<open>Header sorting\<close>

lemma header_sort_fields [simp]:
  "grid_rows (header_sort c r g) = grid_rows g"
  "grid_tasks (header_sort c r g) = grid_tasks g"
  "grid_filter (header_sort c r g) = grid_filter g"
  "grid_sort (header_sort c r g) = Some (c, next_dir c (grid_sort g), r)"
  by (simp_all add: header_sort_def Let_def)

lemma visible_rows_header_sort:
  "visible_rows (header_sort c r g) =
     sort_rows (Some (c, next_dir c (grid_sort g), r)) (map (\<lambda>k. grid_rows g ! k) (sort (grid_view g)))"
  unfolding visible_rows_def header_sort_def Let_def
  by (simp del: order_positions.simps add: map_order_positions)

lemma mset_visible_rows_header_sort:
  "mset (visible_rows (header_sort c r g)) = mset (visible_rows g)"
  by (simp add: visible_rows_def header_sort_def Let_def)

lemma view_ok_header_sort [simp]: "view_ok g \<Longrightarrow> view_ok (header_sort c r g)"
  by (simp add: view_ok_def header_sort_def Let_def)

subsection \<open>What the view shows\<close>

lemma set_visible_rows: "view_ok g \<Longrightarrow> set (visible_rows g) \<subseteq> set (grid_rows g)"
  by (auto simp: view_ok_def visible_rows_def)

lemma visible_rows_nth:
  assumes "view_ok g" and "n < length (visible_rows g)"
  shows "grid_view g ! n < length (grid_rows g)" and "grid_rows g ! (grid_view g ! n) = visible_rows g ! n"
proof -
  from assms have "grid_view g ! n \<in> set (grid_view g)" by (simp add: visible_rows_def)
  with assms(1) show "grid_view g ! n < length (grid_rows g)" by (auto simp: view_ok_def)
  from assms(2) show "grid_rows g ! (grid_view g ! n) = visible_rows g ! n"
    by (simp add: visible_rows_def)
qed

lemma mset_visible_rows_le:
  assumes "view_ok g"
  shows "mset (visible_rows g) \<subseteq># mset (grid_rows g)"
    and "grid_filter g = None \<Longrightarrow> mset (visible_rows g) = mset (grid_rows g)"
proof -
  let ?n = "length (grid_rows g)"
  have le: "mset (grid_view g) \<subseteq># mset [0..<?n]"
    using assms by (intro mset_distinct_le) (simp_all add: view_ok_def)
  have all: "mset (visible_rows g) = image_mset (\<lambda>k. grid_rows g ! k) (mset (grid_view g))"
    by (simp add: visible_rows_def)
  have rows: "mset (grid_rows g) = image_mset (\<lambda>k. grid_rows g ! k) (mset [0..<?n])"
    by (metis map_nth_upt mset_map)
  show "mset (visible_rows g) \<subseteq># mset (grid_rows g)"
    unfolding all rows using le by (rule image_mset_subseteq_mono)
  assume "grid_filter g = None"
  with assms have "distinct (grid_view g)" "set (grid_view g) = set [0..<?n]"
    by (simp_all add: view_ok_def)
  then have "mset (grid_view g) = mset [0..<?n]"
    using set_eq_iff_mset_eq_distinct [of "grid_view g" "[0..<?n]"] by simp
  then show "mset (visible_rows g) = mset (grid_rows g)" unfolding all rows by simp
qed

subsection \<open>Cell edits\<close>

lemma task_id_edit_row [simp]: "task_id (edit_row e t) = task_id t"
  by (cases e) simp_all

lemma valid_status_edit_row [simp]:
  "valid_status (status (edit_row e t)) \<longleftrightarrow>
   valid_status (status t) \<or> (\<exists>i. e = EditStatus i \<and> i < length status_options)"
  by (cases e) (auto simp: valid_status_options_nth simp del: length_status_options)

lemma map_task_id_edit_at [simp]:
  "map task_id (xs[k := edit_row e (xs ! k)]) = map task_id xs"
  by (induction xs arbitrary: k) (auto split: nat.split)

lemma valid_statuses_edit_at [simp]:
  "list_all (\<lambda>t. valid_status (status t)) xs \<Longrightarrow>
   list_all (\<lambda>t. valid_status (status t)) (xs[k := edit_row e (xs ! k)])"
  by (induction xs arbitrary: k) (auto split: nat.split)

end
