(* ===== verification/Toast.thy ===== *)
theory Toast
  imports Prelude
begin

text \<open>
  The Notification Service, \<^verbatim>\<open>showToast\<close> (lines 94--100): it appends a fixed-style
  \<^verbatim>\<open>div\<close> holding the message to the document body and arms a timer that removes that
  element 3000 ms later.  A toast is its message and the time at which its timer fires; the
  live toasts are the elements still in the body, in insertion order.  Time is a count of
  milliseconds; the passage of time is the input that fires the timers due by then
  (\<open>expire_toasts\<close>), each one independently, with no queue.  Position and style
  (line 96) are constants of the element and are not modelled.
\<close>

type_synonym toast = "string \<times> nat"

definition toast_duration :: nat where
  "toast_duration = 3000"

definition show_toast :: "string \<Rightarrow> nat \<Rightarrow> toast list \<Rightarrow> toast list" where
  "show_toast msg now ts = ts @ [(msg, now + toast_duration)]"

definition expire_toasts :: "nat \<Rightarrow> toast list \<Rightarrow> toast list" where
  "expire_toasts now ts = filter (\<lambda>(_, due). now < due) ts"

text \<open>A live toast's timer is still pending and fires at most 3000 ms from now.\<close>

definition toasts_ok :: "nat \<Rightarrow> toast list \<Rightarrow> bool" where
  "toasts_ok now ts \<longleftrightarrow> list_all (\<lambda>(_, due). now < due \<and> due \<le> now + toast_duration) ts"

lemma toasts_ok_Nil [simp]: "toasts_ok now []"
  by (simp add: toasts_ok_def)

lemma toasts_ok_show_toast:
  "toasts_ok now ts \<Longrightarrow> toasts_ok now (show_toast msg now ts)"
  by (simp add: toasts_ok_def show_toast_def toast_duration_def)

lemma toasts_ok_expire:
  "toasts_ok now ts \<Longrightarrow> now \<le> now' \<Longrightarrow> toasts_ok now' (expire_toasts now' ts)"
  by (auto simp: toasts_ok_def expire_toasts_def list_all_iff)

lemma expire_toasts_all_due:
  "toasts_ok now ts \<Longrightarrow> now + toast_duration \<le> now' \<Longrightarrow> expire_toasts now' ts = []"
  by (auto simp: toasts_ok_def expire_toasts_def list_all_iff filter_empty_conv)

lemma expire_toasts_keeps:
  "(msg, due) \<in> set ts \<Longrightarrow> now < due \<Longrightarrow> (msg, due) \<in> set (expire_toasts now ts)"
  by (simp add: expire_toasts_def)

end
