(* ===== verification/TaskManager.thy ===== *)
theory TaskManager
  imports Seed Grid Toast
begin

text \<open>
  The \<^verbatim>\<open>TaskManager\<close> component (\<^verbatim>\<open>src/src/TaskManager.jsx\<close>) as a state
  machine.  Its state \<open>app\<close> holds the three state hooks (\<^verbatim>\<open>tasks\<close>,
  \<^verbatim>\<open>filterStatus\<close>, \<^verbatim>\<open>newTask\<close>, lines 7--13) and the parts of the outside world
  the code writes: the Tabulator instances live on the table element (oldest first, the
  order \<^verbatim>\<open>Tabulator.findTable\<close> returns them in), the toast elements in the body, the
  alerts shown, whether the seed request is outstanding, and the clock.  \<open>tasks_ref\<close>
  stands for the identity of the \<^verbatim>\<open>tasks\<close> array: every \<^verbatim>\<open>setTasks\<close> call of the
  code passes a freshly built array, so it counts the calls, and React re-runs the table
  effect whenever it changed (dependency list \<^verbatim>\<open>[tasks]\<close>, compared by identity).

  A user or network event is handled by \<open>handle\<close> (the event handler's state updates
  and DOM calls), then \<open>commit\<close> runs the effects whose dependencies changed, in
  declaration order, with the cleanup of the previous run first: this is one React
  render-and-commit cycle.  The only way the code can throw is the filter effect reading
  \<^verbatim>\<open>findTable(...)[0]\<close> when no table is live; that is the error value \<open>TypeError\<close>.
  Events that the page cannot produce (a select option or a table row that does not exist)
  leave the state unchanged.
\<close>

datatype event =
    FetchSettled "todo list option"
  | TitleInput string
  | DescriptionInput string
  | StatusSelect nat
  | AddClick
  | DeleteClick nat
  | FilterSelect nat
  | CellEdited nat cell_edit
  | HeaderClick column "string \<Rightarrow> int"
  | Tick nat

datatype js_error = TypeError

record app =
  tasks :: "task list"
  tasks_ref :: nat
  filter_status :: string
  new_task :: draft
  tables :: "grid list"
  toasts :: "toast list"
  alerts :: "string list"
  fetch_pending :: bool
  clock :: nat

definition init_app :: app where
  "init_app =
     \<lparr>tasks = [], tasks_ref = 0, filter_status = '''', new_task = empty_draft, tables = [],
      toasts = [], alerts = [], fetch_pending = False, clock = 0\<rparr>"

definition set_tasks :: "task list \<Rightarrow> app \<Rightarrow> app" where
  "set_tasks ts s = s\<lparr>tasks := ts, tasks_ref := Suc (tasks_ref s)\<rparr>"

definition notify :: "string \<Rightarrow> app \<Rightarrow> app" where
  "notify msg s = s\<lparr>toasts := show_toast msg (clock s) (toasts s)\<rparr>"

subsection \<open>Effects\<close>

definition fetch_effect :: "app \<Rightarrow> app" where
  "fetch_effect s = s\<lparr>fetch_pending := True\<rparr>"

definition table_effect :: "app \<Rightarrow> app" where
  "table_effect s = s\<lparr>tables := butlast (tables s) @ [new_table (tasks s)]\<rparr>"

definition filter_effect :: "app \<Rightarrow> js_error + app" where
  "filter_effect s =
     (case tables s of
        [] \<Rightarrow> Inl TypeError
      | g # gs \<Rightarrow> Inr (s\<lparr>tables := status_filter (filter_status s) g # gs\<rparr>))"

definition commit :: "app \<Rightarrow> app \<Rightarrow> js_error + app" where
  "commit old s =
     (let s1 = (if tasks_ref s \<noteq> tasks_ref old then table_effect s else s)
      in if filter_status s \<noteq> filter_status old then filter_effect s1 else Inr s1)"

definition mount :: "js_error + app" where
  "mount = filter_effect (table_effect (fetch_effect init_app))"

subsection \<open>Event handlers\<close>

definition on_fetch :: "todo list option \<Rightarrow> app \<Rightarrow> app" where
  "on_fetch r s =
     (if fetch_pending s then
        (case r of
           None \<Rightarrow> s\<lparr>fetch_pending := False\<rparr>
         | Some data \<Rightarrow> set_tasks (initial_tasks data) (s\<lparr>fetch_pending := False\<rparr>))
      else s)"

definition handle_add_task :: "app \<Rightarrow> app" where
  "handle_add_task s =
     (if title (new_task s) \<noteq> '''' \<and> description (new_task s) \<noteq> '''' then
        notify ''Task added successfully''
          ((set_tasks (append_task (tasks s) (new_task s)) s)\<lparr>new_task := empty_draft\<rparr>)
      else s\<lparr>alerts := alerts s @ [''Please fill in all fields.'']\<rparr>)"

definition delete_click :: "nat \<Rightarrow> app \<Rightarrow> app" where
  "delete_click n s =
     (case tables s of
        [] \<Rightarrow> s
      | g # _ \<Rightarrow>
          (if n < length (visible_rows g) then
             notify ''Task deleted successfully''
               (set_tasks (delete_by_id (grid_tasks g) (task_id (visible_rows g ! n))) s)
           else s))"

text \<open>
  A cell edit on the \<open>n\<close>-th shown row.  The table was built with
  \<^verbatim>\<open>data: tasks\<close>, so its row objects are the objects of the store array, and the
  array the delete closure captured is the same array: the editor's write into the row
  object is seen through all three.  No \<^verbatim>\<open>setTasks\<close> is called, so the array's
  identity stays and React neither re-renders nor rebuilds the table.
\<close>

definition cell_edited :: "nat \<Rightarrow> cell_edit \<Rightarrow> app \<Rightarrow> app" where
  "cell_edited n e s =
     (case tables s of
        [] \<Rightarrow> s
      | g # gs \<Rightarrow>
          (if n < length (visible_rows g) then
             (let k = grid_view g ! n;
                  ts = (grid_rows g)[k := edit_row e (grid_rows g ! k)]
              in s\<lparr>tasks := ts, tables := g\<lparr>grid_rows := ts, grid_tasks := ts\<rparr> # gs\<rparr>)
           else s))"

fun handle :: "app \<Rightarrow> event \<Rightarrow> app" where
  "handle s (FetchSettled r) = on_fetch r s"
| "handle s (TitleInput v) = s\<lparr>new_task := (new_task s)\<lparr>title := v\<rparr>\<rparr>"
| "handle s (DescriptionInput v) = s\<lparr>new_task := (new_task s)\<lparr>description := v\<rparr>\<rparr>"
| "handle s (StatusSelect i) =
     (if i < length status_options
      then s\<lparr>new_task := (new_task s)\<lparr>status := status_options ! i\<rparr>\<rparr> else s)"
| "handle s AddClick = handle_add_task s"
| "handle s (DeleteClick n) = delete_click n s"
| "handle s (FilterSelect i) =
     (if i < length filter_options then s\<lparr>filter_status := filter_options ! i\<rparr> else s)"
| "handle s (CellEdited n e) = cell_edited n e s"
| "handle s (HeaderClick c r) =
     (case tables s of [] \<Rightarrow> s | g # gs \<Rightarrow> s\<lparr>tables := header_sort c r g # gs\<rparr>)"
| "handle s (Tick d) =
     s\<lparr>clock := clock s + d, toasts := expire_toasts (clock s + d) (toasts s)\<rparr>"

definition step :: "app \<Rightarrow> event \<Rightarrow> js_error + app" where
  "step s e = commit s (handle s e)"

fun run :: "app \<Rightarrow> event list \<Rightarrow> js_error + app" where
  "run s [] = Inr s"
| "run s (e # es) = (case step s e of Inl err \<Rightarrow> Inl err | Inr s' \<Rightarrow> run s' es)"

inductive reachable :: "app \<Rightarrow> bool" where
  mounted: "mount = Inr s \<Longrightarrow> reachable s"
| step: "reachable s \<Longrightarrow> step s e = Inr s' \<Longrightarrow> reachable s'"

subsection \<open>Invariant\<close>

text \<open>
  The table invariant: exactly one live table, built from the current array (its rows and
  its delete closure both are \<^verbatim>\<open>tasks\<close>), and either unfiltered or filtered by the
  selected status.  It does not say that the table is filtered whenever a status is
  selected: that is false (see \<open>tasks_change_drops_filter\<close>).
\<close>

definition table_inv :: "app \<Rightarrow> bool" where
  "table_inv s \<longleftrightarrow>
     (case tables s of
        [g] \<Rightarrow> grid_rows g = tasks s \<and> grid_tasks g = tasks s \<and> view_ok g \<and>
               (grid_filter g = None \<or>
                grid_filter g = Some (filter_status s) \<and> filter_status s \<noteq> '''')
      | _ \<Rightarrow> False)"

definition status_inv :: "app \<Rightarrow> bool" where
  "status_inv s \<longleftrightarrow>
     list_all (\<lambda>t. valid_status (status t)) (tasks s) \<and>
     valid_status (status (new_task s)) \<and> filter_status s \<in> set filter_options"

definition app_inv :: "app \<Rightarrow> bool" where
  "app_inv s \<longleftrightarrow> table_inv s \<and> status_inv s \<and> toasts_ok (clock s) (toasts s)"

text \<open>
  The rows the page shows: those of the first live table, as the user sees them, and the
  header sort active on it.
\<close>

definition shown_rows :: "app \<Rightarrow> task list" where
  "shown_rows s = (case tables s of [] \<Rightarrow> [] | g # _ \<Rightarrow> visible_rows g)"

definition active_sort :: "app \<Rightarrow> sorter option" where
  "active_sort s = (case tables s of [] \<Rightarrow> None | g # _ \<Rightarrow> grid_sort g)"


text \<open>Fixed states and inputs the witnesses below evaluate at.\<close>

abbreviation mounted_app :: app where
  "mounted_app \<equiv> init_app\<lparr>tables := [new_table []], fetch_pending := True\<rparr>"

abbreviation fetched_app :: "todo list \<Rightarrow> app" where
  "fetched_app data \<equiv>
     init_app\<lparr>tasks := initial_tasks data, tasks_ref := 1, tables := [new_table (initial_tasks data)]\<rparr>"

abbreviation demo_todos :: "todo list" where
  "demo_todos \<equiv>
     [\<lparr>todo_id = 1, todo_title = ''Buy milk'', completed = False\<rparr>,
      \<lparr>todo_id = 2, todo_title = ''Pay rent'', completed = True\<rparr>]"

abbreviation filled_app :: "todo list \<Rightarrow> app" where
  "filled_app data \<equiv>
     (fetched_app data)\<lparr>new_task := \<lparr>title = ''Write'', description = ''the report'', status = ''In Progress''\<rparr>\<rparr>"

subsection \<open>Commit, mount and the invariant\<close>

lemma commit_same:
  "tasks_ref s = tasks_ref old \<Longrightarrow> filter_status s = filter_status old \<Longrightarrow> commit old s = Inr s"
  by (simp add: commit_def)

lemma mount_eq: "mount = Inr (init_app\<lparr>tables := [new_table []], fetch_pending := True\<rparr>)"
  by (simp add: mount_def filter_effect_def table_effect_def fetch_effect_def init_app_def status_filter_def refresh_view_def new_table_def)

lemma table_effect_fields [simp]:
  "tables (table_effect s) = butlast (tables s) @ [new_table (tasks s)]"
  "tasks (table_effect s) = tasks s" "tasks_ref (table_effect s) = tasks_ref s"
  "filter_status (table_effect s) = filter_status s" "new_task (table_effect s) = new_task s"
  "toasts (table_effect s) = toasts s" "alerts (table_effect s) = alerts s"
  "fetch_pending (table_effect s) = fetch_pending s" "clock (table_effect s) = clock s"
  by (simp_all add: table_effect_def)

lemma table_inv_iff:
  "table_inv s \<longleftrightarrow>
   (\<exists>g. tables s = [g] \<and> grid_rows g = tasks s \<and> grid_tasks g = tasks s \<and> view_ok g \<and>
        (grid_filter g = None \<or> grid_filter g = Some (filter_status s) \<and> filter_status s \<noteq> ''''))"
  by (auto simp: table_inv_def split: list.splits)

lemma commit_tasks:
  "tasks_ref s \<noteq> tasks_ref old \<Longrightarrow> filter_status s = filter_status old \<Longrightarrow>
   commit old s = Inr (table_effect s)"
  by (simp add: commit_def)

lemma commit_filter:
  "tasks_ref s = tasks_ref old \<Longrightarrow> filter_status s \<noteq> filter_status old \<Longrightarrow>
   commit old s = filter_effect s"
  by (simp add: commit_def)

subsection \<open>One step per event\<close>

text \<open>What one render-and-commit cycle does, event by event.\<close>

lemma step_TitleInput [app_simps]:
  "step s (TitleInput v) = Inr (s\<lparr>new_task := (new_task s)\<lparr>title := v\<rparr>\<rparr>)"
  by (simp add: step_def commit_def)

lemma step_DescriptionInput [app_simps]:
  "step s (DescriptionInput v) = Inr (s\<lparr>new_task := (new_task s)\<lparr>description := v\<rparr>\<rparr>)"
  by (simp add: step_def commit_def)

lemma step_StatusSelect [app_simps]:
  "step s (StatusSelect i) =
   Inr (if i < length status_options
        then s\<lparr>new_task := (new_task s)\<lparr>status := status_options ! i\<rparr>\<rparr> else s)"
  by (simp add: step_def commit_def del: length_status_options)

lemma step_Tick [app_simps]:
  "step s (Tick d) =
   Inr (s\<lparr>clock := clock s + d, toasts := expire_toasts (clock s + d) (toasts s)\<rparr>)"
  by (simp add: step_def commit_def)

lemma step_FetchSettled [app_simps]:
  "step s (FetchSettled r) =
   Inr (if fetch_pending s then
          (case r of
             None \<Rightarrow> s\<lparr>fetch_pending := False\<rparr>
           | Some data \<Rightarrow> table_effect (set_tasks (initial_tasks data) (s\<lparr>fetch_pending := False\<rparr>)))
        else s)"
  by (simp add: step_def commit_def on_fetch_def set_tasks_def split: option.split)

lemma step_AddClick [app_simps]:
  "step s AddClick =
   Inr (if title (new_task s) \<noteq> '''' \<and> description (new_task s) \<noteq> '''' then
          table_effect (notify ''Task added successfully''
            ((set_tasks (append_task (tasks s) (new_task s)) s)\<lparr>new_task := empty_draft\<rparr>))
        else s\<lparr>alerts := alerts s @ [''Please fill in all fields.'']\<rparr>)"
  by (simp add: step_def commit_def handle_add_task_def set_tasks_def notify_def)

lemma step_DeleteClick [app_simps]:
  "step s (DeleteClick n) =
   Inr (case tables s of
          [] \<Rightarrow> s
        | g # _ \<Rightarrow>
            (if n < length (visible_rows g) then
               table_effect (notify ''Task deleted successfully''
                 (set_tasks (delete_by_id (grid_tasks g) (task_id (visible_rows g ! n))) s))
             else s))"
  by (simp add: step_def commit_def delete_click_def set_tasks_def notify_def split: list.split)

lemma step_CellEdited [app_simps]:
  "step s (CellEdited n e) = Inr (cell_edited n e s)"
  by (simp add: step_def commit_def cell_edited_def Let_def split: list.split)

lemma step_HeaderClick [app_simps]:
  "step s (HeaderClick c r) =
   Inr (case tables s of [] \<Rightarrow> s | g # gs \<Rightarrow> s\<lparr>tables := header_sort c r g # gs\<rparr>)"
  by (simp add: step_def commit_def split: list.split)

lemma step_FilterSelect [app_simps]:
  "step s (FilterSelect i) =
   (if i < length filter_options \<and> filter_options ! i \<noteq> filter_status s
    then filter_effect (s\<lparr>filter_status := filter_options ! i\<rparr>) else Inr s)"
  by (simp add: step_def commit_def del: length_filter_options)

lemma cell_edited_fields:
  assumes "tables s = g # gs"
  shows "tasks (cell_edited n e s) =
           (if n < length (visible_rows g)
            then (grid_rows g)[grid_view g ! n := edit_row e (grid_rows g ! (grid_view g ! n))] else tasks s)"
    and "tasks_ref (cell_edited n e s) = tasks_ref s"
    and "filter_status (cell_edited n e s) = filter_status s"
    and "toasts (cell_edited n e s) = toasts s" and "clock (cell_edited n e s) = clock s"
  using assms by (simp_all add: cell_edited_def Let_def)

subsection \<open>The invariant holds in every reachable state\<close>

lemma app_inv_mount: "mount = Inr s \<Longrightarrow> app_inv s"
  by (auto simp: mount_eq app_inv_def table_inv_iff status_inv_def init_app_def filter_options_def)

lemma app_inv_step:
  assumes inv: "app_inv s" and st: "step s e = Inr s'"
  shows "app_inv s'"
proof -
  from inv obtain g where tg: "tables s = [g]" and rows: "grid_rows g = tasks s"
    and clo: "grid_tasks g = tasks s" and vo: "view_ok g"
    and flt: "grid_filter g = None \<or> grid_filter g = Some (filter_status s) \<and> filter_status s \<noteq> ''''"
    and si: "status_inv s" and ti: "toasts_ok (clock s) (toasts s)"
    by (auto simp: app_inv_def table_inv_iff)
  note facts = st tg rows clo vo flt si ti
  note defs = app_simps app_inv_def status_inv_def table_inv_iff set_tasks_def notify_def
  show ?thesis
  proof (cases e)
    case (FetchSettled r)
    then show ?thesis using facts by (auto simp: defs split: option.splits if_splits)
  next
    case (TitleInput v)
    then show ?thesis using facts by (auto simp: defs)
  next
    case (DescriptionInput v)
    then show ?thesis using facts by (auto simp: defs)
  next
    case (StatusSelect i)
    then show ?thesis using facts
      by (auto simp: defs valid_status_options_nth split: if_splits simp del: length_status_options)
  next
    case AddClick
    then show ?thesis using facts
      by (auto simp: defs toasts_ok_show_toast split: if_splits)
  next
    case (DeleteClick n)
    then show ?thesis using facts
      by (auto simp: defs toasts_ok_show_toast split: if_splits)
  next
    case (FilterSelect i)
    then show ?thesis using facts
      by (auto simp: defs filter_effect_def split: if_splits dest: filter_options_nth simp del: length_filter_options)
  next
    case (CellEdited n c)
    then show ?thesis using facts by (auto simp: defs cell_edited_def Let_def view_ok_def)
  next
    case (HeaderClick c r)
    then show ?thesis using facts by (auto simp: defs)
  next
    case (Tick d)
    then show ?thesis using facts by (auto simp: defs toasts_ok_expire)
  qed
qed

lemma reachable_app_inv: "reachable s \<Longrightarrow> app_inv s"
proof (induction rule: reachable.induct)
  case (mounted s)
  then show ?case by (rule app_inv_mount)
next
  case (step s e s')
  then show ?case by (blast intro: app_inv_step)
qed

lemma app_invD:
  assumes "app_inv s"
  obtains g where "tables s = [g]" "grid_rows g = tasks s" "grid_tasks g = tasks s" "view_ok g"
    "grid_filter g = None \<or> grid_filter g = Some (filter_status s) \<and> filter_status s \<noteq> ''''"
    "status_inv s" "toasts_ok (clock s) (toasts s)"
  using assms by (auto simp: app_inv_def table_inv_iff)

lemma shown_rows_table_effect [simp]:
  "length (tables s) \<le> 1 \<Longrightarrow> shown_rows (table_effect s) = tasks s"
  by (cases "tables s") (auto simp: shown_rows_def)

subsection \<open>Runs and reachable states\<close>

lemma run_append:
  "run s (es @ es') = (case run s es of Inl err \<Rightarrow> Inl err | Inr s' \<Rightarrow> run s' es')"
  by (induction es arbitrary: s) (auto split: sum.split)

lemma reachable_run: "reachable s \<Longrightarrow> run s es = Inr s' \<Longrightarrow> reachable s'"
proof (induction es arbitrary: s)
  case Nil
  then show ?case by simp
next
  case (Cons e es)
  then show ?case by (auto split: sum.splits intro: reachable.step)
qed

lemma reachable_mounted_app: "reachable mounted_app"
  by (rule reachable.mounted) (simp add: mount_eq)

lemma reachable_fetched_app: "reachable (fetched_app data)"
proof (rule reachable.step [OF reachable_mounted_app])
  show "step mounted_app (FetchSettled (Some data)) = Inr (fetched_app data)"
    by (simp add: app_simps set_tasks_def init_app_def)
qed

lemma reachable_run_fetched: "run (fetched_app data) es = Inr s \<Longrightarrow> reachable s"
  by (rule reachable_run [OF reachable_fetched_app])

lemma reachable_filled_app: "reachable (filled_app demo_todos)"
proof (rule reachable_run_fetched)
  show "run (fetched_app demo_todos) [TitleInput ''Write'', DescriptionInput ''the report'', StatusSelect 1] =
        Inr (filled_app demo_todos)"
    by (simp add: app_simps init_app_def empty_draft_def status_options_def)
qed

lemma run_caseE:
  assumes "case run s0 es of Inl err \<Rightarrow> False | Inr s \<Rightarrow> P s"
  obtains s where "run s0 es = Inr s" and "P s"
  using assms by (cases "run s0 es") auto

lemma step_caseE:
  assumes "case step s e of Inl err \<Rightarrow> False | Inr s' \<Rightarrow> P s'"
  obtains s' where "step s e = Inr s'" and "P s'"
  using assms by (cases "step s e") auto

lemmas run_eval_simps = app_simps set_tasks_def notify_def initial_tasks_def seed_task_def
  delete_by_id_def append_task_def new_task_of_def visible_rows_def show_toast_def
  init_app_def filter_effect_def shown_rows_def toast_duration_def
  status_filter_def refresh_view_def row_filter_def
  filter_options_def status_options_def

subsection \<open>Deleting and unfiltering in a reachable state\<close>

lemma delete_click_app_inv:
  assumes "app_inv s" and "n < length (shown_rows s)"
  shows "shown_rows s ! n \<in> set (tasks s) \<and>
    step s (DeleteClick n) = Inr (table_effect (notify ''Task deleted successfully''
      (set_tasks (delete_by_id (tasks s) (task_id (shown_rows s ! n))) s)))"
proof -
  from assms(1) obtain g where tg: "tables s = [g]" and rows: "grid_rows g = tasks s"
    and clo: "grid_tasks g = tasks s" and vo: "view_ok g" by (rule app_invD)
  have "visible_rows g ! n \<in> set (tasks s)"
    using assms(2) tg rows set_visible_rows [OF vo] nth_mem by (fastforce simp: shown_rows_def)
  with assms(2) tg clo show ?thesis by (simp add: app_simps shown_rows_def)
qed

text \<open>When the filter hides every row of a non-empty store, picking "All" shows them.\<close>

lemma clear_filter_app_inv:
  assumes "app_inv s" and "shown_rows s = []" and "tasks s \<noteq> []"
  shows "\<exists>s'. step s (FilterSelect 0) = Inr s' \<and> tasks s' = tasks s \<and>
    mset (shown_rows s') = mset (tasks s)"
proof -
  from assms(1) obtain g where tg: "tables s = [g]" and rows: "grid_rows g = tasks s"
    and vo: "view_ok g"
    and flt: "grid_filter g = None \<or> grid_filter g = Some (filter_status s) \<and> filter_status s \<noteq> ''''"
    by (rule app_invD)
  have "grid_filter g \<noteq> None"
    using assms(2,3) tg rows mset_visible_rows_le(2) [OF vo] by (auto simp: shown_rows_def)
  with flt have "filter_status s \<noteq> ''''" by simp
  with tg rows show ?thesis
    by (simp add: app_simps filter_effect_def shown_rows_def visible_rows_status_filter filter_options_def)
qed

lemma reach_shown_row:
  assumes "reachable s" and "tasks s \<noteq> []"
  shows "\<exists>es s1. run s es = Inr s1 \<and> reachable s1 \<and> tasks s1 = tasks s \<and> shown_rows s1 \<noteq> []"
proof (cases "shown_rows s = []")
  case False
  have "run s [] = Inr s" by simp
  with assms False show ?thesis by blast
next
  case True
  from assms(1) have "app_inv s" by (rule reachable_app_inv)
  from clear_filter_app_inv [OF this True assms(2)] obtain s' where
    st: "step s (FilterSelect 0) = Inr s'" and "tasks s' = tasks s" and "mset (shown_rows s') = mset (tasks s)"
    by blast
  moreover from st have "run s [FilterSelect 0] = Inr s'" by simp
  moreover from assms(1) st have "reachable s'" by (rule reachable.step)
  moreover from \<open>mset (shown_rows s') = mset (tasks s)\<close> assms(2) have "shown_rows s' \<noteq> []"
    by (metis mset_zero_iff)
  ultimately have "run s [FilterSelect 0] = Inr s' \<and> reachable s' \<and> tasks s' = tasks s \<and>
      shown_rows s' \<noteq> []" using assms(2) by simp
  then show ?thesis by blast
qed

subsection \<open>Properties of the component\<close>

text \<open>
  C1: in every reachable state exactly one Tabulator instance is live, and both its rows and
  the array its delete handler filters are the current \<^verbatim>\<open>tasks\<close>: the effect's cleanup
  destroys the previous instance before a new one is built, and no handler sees a stale array.
\<close>

theorem reachable_table_current:
  assumes "reachable s"
  shows "\<exists>g. tables s = [g] \<and> grid_rows g = tasks s \<and> grid_tasks g = tasks s"
proof -
  from assms have "app_inv s" by (rule reachable_app_inv)
  then show ?thesis by (auto elim: app_invD)
qed

theorem reachable_table_current_witness:
  "reachable (fetched_app demo_todos) \<and>
   (\<exists>g. tables (fetched_app demo_todos) = [g] \<and> grid_rows g = tasks (fetched_app demo_todos) \<and>
        grid_tasks g = tasks (fetched_app demo_todos))"
  using reachable_table_current [OF reachable_fetched_app] reachable_fetched_app by blast

text \<open>
  C2: in every reachable state every task's status, the draft's status and the selected
  filter value are among the values the selects offer (the status invariant of the
  specification, section 3).
\<close>

theorem reachable_statuses_valid:
  assumes "reachable s"
  shows "list_all (\<lambda>t. valid_status (status t)) (tasks s) \<and>
    valid_status (status (new_task s)) \<and> filter_status s \<in> set filter_options"
proof -
  from assms have "app_inv s" by (rule reachable_app_inv)
  then have "status_inv s" by (rule app_invD)
  then show ?thesis by (simp add: status_inv_def)
qed

theorem reachable_statuses_valid_witness:
  "reachable (fetched_app demo_todos) \<and>
   list_all (\<lambda>t. valid_status (status t)) (tasks (fetched_app demo_todos)) \<and>
   valid_status (status (new_task (fetched_app demo_todos))) \<and>
   filter_status (fetched_app demo_todos) \<in> set filter_options"
  using reachable_statuses_valid [OF reachable_fetched_app] reachable_fetched_app by blast

text \<open>
  C3: no event throws in a reachable state: the filter effect's
  \<^verbatim>\<open>Tabulator.findTable(tableRef.current)[0]\<close> always finds a table, so every event is
  handled and committed.
\<close>

theorem step_total:
  assumes "reachable s"
  shows "\<exists>s'. step s e = Inr s'"
proof -
  from assms have "app_inv s" by (rule reachable_app_inv)
  then obtain g where "tables s = [g]" by (rule app_invD)
  then show ?thesis by (cases e) (auto simp: app_simps filter_effect_def)
qed

theorem step_total_witness:
  "reachable (fetched_app demo_todos) \<and> (\<exists>s'. step (fetched_app demo_todos) (FilterSelect 3) = Inr s')"
  using step_total [OF reachable_fetched_app] reachable_fetched_app by blast

text \<open>
  C4: \<^verbatim>\<open>handleAddTask\<close> with a non-empty title and description appends one task with
  the draft's fields and id \<^verbatim>\<open>tasks.length + 1\<close>, resets the draft, raises no alert and
  shows the toast "Task added successfully" for 3000 ms.
\<close>

theorem add_accepted:
  assumes "title (new_task s) \<noteq> ''''" and "description (new_task s) \<noteq> ''''"
  shows "\<exists>s'. step s AddClick = Inr s' \<and>
    tasks s' = tasks s @ [\<lparr>title = title (new_task s), description = description (new_task s),
                           status = status (new_task s), task_id = int (length (tasks s)) + 1\<rparr>] \<and>
    new_task s' = empty_draft \<and> alerts s' = alerts s \<and>
    toasts s' = toasts s @ [(''Task added successfully'', clock s + 3000)]"
  using assms
  by (simp add: app_simps set_tasks_def notify_def append_task_def new_task_of_def
      show_toast_def toast_duration_def)

theorem add_accepted_witness:
  "title (new_task (filled_app demo_todos)) \<noteq> '''' \<and>
   description (new_task (filled_app demo_todos)) \<noteq> '''' \<and>
   (\<exists>s'. step (filled_app demo_todos) AddClick = Inr s' \<and>
     tasks s' = tasks (filled_app demo_todos) @
       [\<lparr>title = ''Write'', description = ''the report'', status = ''In Progress'', task_id = 3\<rparr>] \<and>
     new_task s' = empty_draft \<and> alerts s' = [] \<and>
     toasts s' = [(''Task added successfully'', 3000)])"
  using add_accepted [of "filled_app demo_todos"] by (simp add: initial_tasks_def init_app_def)

text \<open>
  C5: a submission with an empty title or an empty description changes nothing but the
  alert "Please fill in all fields.": the store, the draft, the table and the toasts stay.
\<close>

theorem add_rejected:
  assumes "title (new_task s) = '''' \<or> description (new_task s) = ''''"
  shows "step s AddClick = Inr (s\<lparr>alerts := alerts s @ [''Please fill in all fields.'']\<rparr>)"
  using assms by (auto simp: app_simps)

theorem add_rejected_witness:
  "(title (new_task (fetched_app demo_todos)) = '''' \<or>
    description (new_task (fetched_app demo_todos)) = '''') \<and>
   step (fetched_app demo_todos) AddClick =
     Inr ((fetched_app demo_todos)\<lparr>alerts := [''Please fill in all fields.'']\<rparr>)"
  using add_rejected [of "fetched_app demo_todos"] by (simp add: init_app_def empty_draft_def)

text \<open>
  C6: clicking the delete cell of the \<open>n\<close>-th shown row removes from the store every task
  whose id is that row's id (an id the store holds), keeps the other tasks in order,
  shows "Task deleted successfully", and the rebuilt table shows the new store.
\<close>

theorem delete_click_step:
  assumes "reachable s" and "n < length (shown_rows s)"
    and "i = task_id (shown_rows s ! n)"
  shows "\<exists>s'. step s (DeleteClick n) = Inr s' \<and>
    tasks s' = delete_by_id (tasks s) i \<and> i \<in> task_id ` set (tasks s) \<and>
    toasts s' = toasts s @ [(''Task deleted successfully'', clock s + 3000)] \<and>
    shown_rows s' = tasks s'"
proof -
  from assms(1) have inv: "app_inv s" by (rule reachable_app_inv)
  then obtain g where "tables s = [g]" by (rule app_invD)
  with delete_click_app_inv [OF inv assms(2)] assms(3) show ?thesis
    by (simp add: set_tasks_def notify_def show_toast_def toast_duration_def)
qed

theorem delete_click_step_witness:
  "reachable (fetched_app demo_todos) \<and> 0 < length (shown_rows (fetched_app demo_todos)) \<and>
   (\<exists>s'. step (fetched_app demo_todos) (DeleteClick 0) = Inr s' \<and>
     tasks s' = delete_by_id (tasks (fetched_app demo_todos)) 1 \<and>
     toasts s' = [(''Task deleted successfully'', 3000)] \<and> shown_rows s' = tasks s')"
  using delete_click_step [OF reachable_fetched_app [of demo_todos], where n = 0 and i = 1]
    reachable_fetched_app [of demo_todos]
  by (simp add: shown_rows_def visible_rows_def initial_tasks_def seed_task_def init_app_def)

text \<open>
  C11: uniqueness of ids is lost only in two ways: an added task whose computed id
  \<^verbatim>\<open>tasks.length + 1\<close> is already taken, or a seed batch whose first 20 records repeat
  an id.  Deleting, typing, filtering and time never break it.
\<close>

theorem ids_break_only_by:
  assumes "reachable s" and "distinct (map task_id (tasks s))"
    and "step s e = Inr s'" and "\<not> distinct (map task_id (tasks s'))"
  shows "e = AddClick \<and> int (length (tasks s)) + 1 \<in> task_id ` set (tasks s) \<or>
         (\<exists>data. e = FetchSettled (Some data) \<and> \<not> distinct (map todo_id (take 20 data)))"
proof -
  from assms(1) have "app_inv s" by (rule reachable_app_inv)
  then obtain g where tg: "tables s = [g]" and rows: "grid_rows g = tasks s"
    and clo: "grid_tasks g = tasks s" by (rule app_invD)
  have del: "distinct (map task_id (delete_by_id (tasks s) i))" for i
    using assms(2) by (simp add: delete_by_id_def distinct_map_filter)
  show ?thesis
    using assms(2-4) tg rows clo del
    by (cases e) (auto simp: app_simps set_tasks_def notify_def filter_effect_def cell_edited_fields
        distinct_append_task_iff map_task_id_initial_tasks split: if_splits option.splits)
qed

theorem ids_break_only_by_witness:
  "\<exists>s s'. reachable s \<and> distinct (map task_id (tasks s)) \<and> step s AddClick = Inr s' \<and>
     \<not> distinct (map task_id (tasks s')) \<and>
     int (length (tasks s)) + 1 \<in> task_id ` set (tasks s)"
proof -
  have "case run (fetched_app demo_todos) [DeleteClick 0, TitleInput ''x'', DescriptionInput ''y''] of
          Inl err \<Rightarrow> False
        | Inr s \<Rightarrow> distinct (map task_id (tasks s)) \<and>
            (case step s AddClick of Inl err \<Rightarrow> False | Inr s' \<Rightarrow> \<not> distinct (map task_id (tasks s')))"
    by (simp add: run_eval_simps)
  then obtain s where run: "run (fetched_app demo_todos) [DeleteClick 0, TitleInput ''x'', DescriptionInput ''y''] = Inr s"
    and d: "distinct (map task_id (tasks s))"
    and c: "case step s AddClick of Inl err \<Rightarrow> False | Inr s' \<Rightarrow> \<not> distinct (map task_id (tasks s'))"
    by (rule run_caseE) blast
  from c obtain s' where st: "step s AddClick = Inr s'" and nd: "\<not> distinct (map task_id (tasks s'))"
    by (rule step_caseE)
  from run have r: "reachable s" by (rule reachable_run_fetched)
  from ids_break_only_by [OF r d st nd] r d st nd show ?thesis by blast
qed

text \<open>
  C13: selecting another value in the filter dropdown leaves the store alone and shows
  exactly the tasks of that status, or all tasks for "All", in store order when no header
  sort is active and otherwise stably sorted by the active sorter.
\<close>

theorem filter_select_step:
  assumes "reachable s" and "i < length filter_options"
    and "filter_options ! i \<noteq> filter_status s"
  shows "\<exists>s'. step s (FilterSelect i) = Inr s' \<and> tasks s' = tasks s \<and>
    filter_status s' = filter_options ! i \<and>
    shown_rows s' = sort_rows (active_sort s)
      (if filter_options ! i = '''' then tasks s else filter (\<lambda>t. status t = filter_options ! i) (tasks s))"
proof -
  from assms(1) have "app_inv s" by (rule reachable_app_inv)
  then obtain g where tg: "tables s = [g]" and rows: "grid_rows g = tasks s" by (rule app_invD)
  with assms(2,3) show ?thesis
    by (simp add: app_simps filter_effect_def shown_rows_def active_sort_def visible_rows_status_filter
        del: length_filter_options)
qed

theorem filter_select_step_witness:
  "reachable (fetched_app demo_todos) \<and> 3 < length filter_options \<and>
   filter_options ! 3 \<noteq> filter_status (fetched_app demo_todos) \<and>
   (\<exists>s'. step (fetched_app demo_todos) (FilterSelect 3) = Inr s' \<and>
     tasks s' = tasks (fetched_app demo_todos) \<and> filter_status s' = ''Done'' \<and>
     map task_id (shown_rows s') = [2])"
  using filter_select_step [OF reachable_fetched_app [of demo_todos], where i = 3]
    reachable_fetched_app [of demo_todos]
  by (auto simp: filter_options_def status_options_def init_app_def initial_tasks_def seed_task_def
      active_sort_def)

text \<open>
  C14: every change of the store (a new \<^verbatim>\<open>tasks\<close> array) rebuilds the table without a
  filter, while the dropdown keeps its value: afterwards all tasks are shown whatever
  status is selected.
\<close>

theorem tasks_change_drops_filter:
  assumes "reachable s" and "step s e = Inr s'" and "tasks_ref s' \<noteq> tasks_ref s"
  shows "shown_rows s' = tasks s' \<and> filter_status s' = filter_status s"
proof -
  from assms(1) have "app_inv s" by (rule reachable_app_inv)
  then obtain g where tg: "tables s = [g]" by (rule app_invD)
  show ?thesis
    using assms(2,3) tg
    by (cases e) (auto simp: app_simps set_tasks_def notify_def filter_effect_def shown_rows_def
        cell_edited_fields split: if_splits option.splits)
qed

theorem tasks_change_drops_filter_witness:
  "\<exists>s s'. reachable s \<and> step s (DeleteClick 0) = Inr s' \<and> tasks_ref s' \<noteq> tasks_ref s \<and>
     filter_status s = ''Done'' \<and> shown_rows s' = tasks s' \<and> filter_status s' = ''Done''"
proof -
  have "case run (fetched_app demo_todos) [FilterSelect 3] of
          Inl err \<Rightarrow> False
        | Inr s \<Rightarrow> filter_status s = ''Done'' \<and>
            (case step s (DeleteClick 0) of Inl err \<Rightarrow> False | Inr s' \<Rightarrow> tasks_ref s' \<noteq> tasks_ref s)"
    by (simp add: run_eval_simps)
  then obtain s where run: "run (fetched_app demo_todos) [FilterSelect 3] = Inr s"
    and f: "filter_status s = ''Done''"
    and c: "case step s (DeleteClick 0) of Inl err \<Rightarrow> False | Inr s' \<Rightarrow> tasks_ref s' \<noteq> tasks_ref s"
    by (rule run_caseE) blast
  from c obtain s' where st: "step s (DeleteClick 0) = Inr s'" and ch: "tasks_ref s' \<noteq> tasks_ref s"
    by (rule step_caseE)
  from run have r: "reachable s" by (rule reachable_run_fetched)
  from tasks_change_drops_filter [OF r st ch] r st ch f show ?thesis by auto
qed

text \<open>
  C16: the store has exactly four writers: the add button, the delete cell and the seed
  fetch with data, each through \<^verbatim>\<open>setTasks\<close>, and a grid cell edit, which writes
  the shared row object in place; typing, selecting, filtering, a failed fetch and time
  never change it.
\<close>

theorem store_writers:
  assumes "step s e = Inr s'" and "tasks s' \<noteq> tasks s"
  shows "e = AddClick \<or> (\<exists>n. e = DeleteClick n) \<or> (\<exists>data. e = FetchSettled (Some data)) \<or>
         (\<exists>n c. e = CellEdited n c)"
  using assms
  by (cases e) (auto simp: app_simps set_tasks_def filter_effect_def
      split: if_splits option.splits list.splits)

theorem store_writers_witness:
  "step (fetched_app demo_todos) (DeleteClick 0) = Inr (table_effect (notify ''Task deleted successfully''
     (set_tasks [seed_task (demo_todos ! 1)] (fetched_app demo_todos)))) \<and>
   tasks (table_effect (notify ''Task deleted successfully''
     (set_tasks [seed_task (demo_todos ! 1)] (fetched_app demo_todos)))) \<noteq> tasks (fetched_app demo_todos) \<and>
   (DeleteClick 0 = AddClick \<or> (\<exists>n. DeleteClick 0 = DeleteClick n) \<or>
    (\<exists>data. DeleteClick 0 = FetchSettled (Some data)) \<or> (\<exists>n c. DeleteClick 0 = CellEdited n c))"
proof -
  have st: "step (fetched_app demo_todos) (DeleteClick 0) = Inr (table_effect (notify ''Task deleted successfully''
     (set_tasks [seed_task (demo_todos ! 1)] (fetched_app demo_todos))))"
    by (simp add: app_simps visible_rows_def initial_tasks_def delete_by_id_def seed_task_def init_app_def)
  have ne: "tasks (table_effect (notify ''Task deleted successfully''
     (set_tasks [seed_task (demo_todos ! 1)] (fetched_app demo_todos)))) \<noteq> tasks (fetched_app demo_todos)"
    by (simp add: set_tasks_def notify_def initial_tasks_def seed_task_def)
  show ?thesis using st ne store_writers [OF st ne] by blast
qed

text \<open>
  C19: when the seed request resolves, the store becomes the seed tasks and the table shows
  them, whatever the store held before: tasks added while the request was outstanding are
  discarded (the handler calls \<^verbatim>\<open>setTasks(initialTasks)\<close>, not an append).
\<close>

theorem fetch_replaces_store:
  assumes "reachable s" and "fetch_pending s"
  shows "\<exists>s'. step s (FetchSettled (Some data)) = Inr s' \<and> tasks s' = initial_tasks data \<and>
    shown_rows s' = initial_tasks data \<and> \<not> fetch_pending s'"
proof -
  from assms(1) have "app_inv s" by (rule reachable_app_inv)
  then obtain g where tg: "tables s = [g]" by (rule app_invD)
  with assms(2) show ?thesis by (simp add: app_simps set_tasks_def shown_rows_def)
qed

theorem fetch_replaces_store_witness:
  "reachable mounted_app \<and> fetch_pending mounted_app \<and>
   (\<exists>s'. step mounted_app (FetchSettled (Some demo_todos)) = Inr s' \<and>
     tasks s' = initial_tasks demo_todos \<and> shown_rows s' = initial_tasks demo_todos \<and>
     \<not> fetch_pending s')"
  using fetch_replaces_store [OF reachable_mounted_app, of demo_todos] reachable_mounted_app
  by simp

text \<open>
  C20: a failed request (network error, a body that is not JSON) is silent: the promise
  chain has no \<^verbatim>\<open>catch\<close>, so the store, the table, the toasts and the alerts stay as
  they are.
\<close>

theorem fetch_failure_silent:
  "\<exists>s'. step s (FetchSettled None) = Inr s' \<and> tasks s' = tasks s \<and> tables s' = tables s \<and>
        toasts s' = toasts s \<and> alerts s' = alerts s"
  by (simp add: app_simps)

text \<open>
  C21: the seed request is issued only on mount: its effect has the empty dependency list,
  so no later commit re-runs it, and once the request has settled no event makes it
  outstanding again.
\<close>

theorem fetch_only_on_mount:
  assumes "\<not> fetch_pending s" and "step s e = Inr s'"
  shows "\<not> fetch_pending s'"
  using assms
  by (cases e) (auto simp: app_simps set_tasks_def notify_def filter_effect_def cell_edited_def Let_def
      split: if_splits option.splits list.splits)

theorem fetch_only_on_mount_witness:
  "\<exists>s'. \<not> fetch_pending (fetched_app demo_todos) \<and>
     step (fetched_app demo_todos) (DeleteClick 0) = Inr s' \<and> \<not> fetch_pending s'"
proof -
  obtain s' where st: "step (fetched_app demo_todos) (DeleteClick 0) = Inr s'"
    by (simp add: app_simps)
  have np: "\<not> fetch_pending (fetched_app demo_todos)" by (simp add: init_app_def)
  from fetch_only_on_mount [OF np st] np st show ?thesis by blast
qed

text \<open>
  C22: toasts are transient: from any reachable state, once 3000 ms have passed every toast
  has been removed.
\<close>

theorem toasts_gone_after_duration:
  assumes "reachable s" and "toast_duration \<le> d" and "step s (Tick d) = Inr s'"
  shows "toasts s' = []"
proof -
  from assms(1) have "app_inv s" by (rule reachable_app_inv)
  then have "toasts_ok (clock s) (toasts s)" by (rule app_invD)
  with assms(2,3) expire_toasts_all_due [of "clock s" "toasts s" "clock s + d"]
  show ?thesis by (auto simp: app_simps)
qed

theorem toasts_gone_after_duration_witness:
  "\<exists>s s'. reachable s \<and> toasts s \<noteq> [] \<and> toast_duration \<le> 3000 \<and>
     step s (Tick 3000) = Inr s' \<and> toasts s' = []"
proof -
  obtain s where st: "step (filled_app demo_todos) AddClick = Inr s"
    and ne: "toasts s \<noteq> []"
    by (simp add: app_simps notify_def show_toast_def)
  from reachable_filled_app st have r: "reachable s" by (rule reachable.step)
  obtain s' where st': "step s (Tick 3000) = Inr s'" by (simp add: app_simps)
  have d: "toast_duration \<le> 3000" by (simp add: toast_duration_def)
  from toasts_gone_after_duration [OF r d st'] r ne d st' show ?thesis by blast
qed

text \<open>
  C23: the toast of an accepted submission stays exactly 3000 ms: it is still shown after
  any wait shorter than that and gone after any wait of at least that long.
\<close>

theorem added_toast_lifetime:
  assumes "title (new_task s) \<noteq> ''''" and "description (new_task s) \<noteq> ''''"
    and "step s AddClick = Inr s1" and "step s1 (Tick d) = Inr s2"
  shows "(''Task added successfully'', clock s + 3000) \<in> set (toasts s2) \<longleftrightarrow> d < 3000"
  using assms
  by (auto simp: app_simps set_tasks_def notify_def show_toast_def toast_duration_def
      expire_toasts_def split: if_splits)

theorem added_toast_lifetime_witness:
  "\<exists>s1 s2. step (filled_app demo_todos) AddClick = Inr s1 \<and> step s1 (Tick 2999) = Inr s2 \<and>
     (''Task added successfully'', 3000) \<in> set (toasts s2)"
proof -
  obtain s1 where s1: "step (filled_app demo_todos) AddClick = Inr s1"
    by (simp add: app_simps)
  obtain s2 where s2: "step s1 (Tick 2999) = Inr s2" by (simp add: app_simps)
  have "title (new_task (filled_app demo_todos)) \<noteq> ''''"
    and "description (new_task (filled_app demo_todos)) \<noteq> ''''" by simp_all
  from added_toast_lifetime [OF this s1 s2] s1 s2 show ?thesis
    by (auto simp: init_app_def)
qed

text \<open>
  C26: a click on a column header only reorders the grid: the store, its identity and the
  filter stay, the active sort becomes that column (ascending, unless it was already sorted
  ascending by it), and the grid shows the same rows sorted by that column.
\<close>

theorem header_click_step:
  assumes "reachable s"
  shows "\<exists>s'. step s (HeaderClick c r) = Inr s' \<and> tasks s' = tasks s \<and> tasks_ref s' = tasks_ref s \<and>
    filter_status s' = filter_status s \<and> active_sort s' = Some (c, next_dir c (active_sort s), r) \<and>
    mset (shown_rows s') = mset (shown_rows s) \<and>
    sorted (map (sort_rank (c, next_dir c (active_sort s), r)) (shown_rows s'))"
proof -
  from assms have "app_inv s" by (rule reachable_app_inv)
  then obtain g where tg: "tables s = [g]" by (rule app_invD)
  have "sorted (map (sort_rank (c, next_dir c (grid_sort g), r)) (visible_rows (header_sort c r g)))"
    by (simp add: visible_rows_header_sort)
  with tg show ?thesis
    by (simp add: app_simps active_sort_def shown_rows_def mset_visible_rows_header_sort)
qed

theorem header_click_step_witness:
  "reachable (fetched_app demo_todos) \<and>
   (\<exists>s'. step (fetched_app demo_todos) (HeaderClick ColTitle (\<lambda>x. - int (length x))) = Inr s' \<and>
     tasks s' = tasks (fetched_app demo_todos) \<and> tasks_ref s' = tasks_ref (fetched_app demo_todos) \<and>
     filter_status s' = filter_status (fetched_app demo_todos) \<and>
     active_sort s' = Some (ColTitle, True, \<lambda>x. - int (length x)) \<and>
     mset (shown_rows s') = mset (shown_rows (fetched_app demo_todos)) \<and>
     sorted (map (sort_rank (ColTitle, True, \<lambda>x. - int (length x))) (shown_rows s')))"
  using header_click_step [OF reachable_fetched_app [of demo_todos], where c = ColTitle
      and r = "\<lambda>x. - int (length x)"] reachable_fetched_app [of demo_todos]
  by (simp add: active_sort_def next_dir_def)

text \<open>
  C28: a finished cell edit on the \<open>n\<close>-th shown row writes the store in place: the
  task at the row's position \<open>k\<close> in \<^verbatim>\<open>tasks\<close> (the shown task itself) gets the
  edited field, every other task stays, and since no \<^verbatim>\<open>setTasks\<close> runs, the array
  identity, the filter, the toasts and the alerts are unchanged and the table is not rebuilt.
\<close>

theorem cell_edit_step:
  assumes "reachable s" and "n < length (shown_rows s)"
  shows "\<exists>k s'. step s (CellEdited n c) = Inr s' \<and> k < length (tasks s) \<and>
    tasks s ! k = shown_rows s ! n \<and> tasks s' = (tasks s)[k := edit_row c (tasks s ! k)] \<and>
    tasks_ref s' = tasks_ref s \<and> filter_status s' = filter_status s \<and>
    toasts s' = toasts s \<and> alerts s' = alerts s"
proof -
  from assms(1) have "app_inv s" by (rule reachable_app_inv)
  then obtain g where tg: "tables s = [g]" and rows: "grid_rows g = tasks s" and vo: "view_ok g"
    by (rule app_invD)
  from assms(2) tg have n: "n < length (visible_rows g)" by (simp add: shown_rows_def)
  note k = visible_rows_nth [OF vo n]
  show ?thesis
  proof (intro exI conjI)
    show "step s (CellEdited n c) = Inr (cell_edited n c s)" by (simp add: app_simps)
    show "grid_view g ! n < length (tasks s)" using k(1) rows by simp
    show "tasks s ! (grid_view g ! n) = shown_rows s ! n" using k(2) rows tg by (simp add: shown_rows_def)
    show "tasks (cell_edited n c s) = (tasks s)[grid_view g ! n := edit_row c (tasks s ! (grid_view g ! n))]"
      using n tg rows by (simp add: cell_edited_fields)
  qed (simp_all add: tg cell_edited_fields cell_edited_def Let_def)
qed

theorem cell_edit_step_witness:
  "reachable (fetched_app demo_todos) \<and> 0 < length (shown_rows (fetched_app demo_todos)) \<and>
   (\<exists>k s'. step (fetched_app demo_todos) (CellEdited 0 (EditTitle '''')) = Inr s' \<and>
     k < length (tasks (fetched_app demo_todos)) \<and>
     tasks (fetched_app demo_todos) ! k = shown_rows (fetched_app demo_todos) ! 0 \<and>
     tasks s' = (tasks (fetched_app demo_todos))[k := edit_row (EditTitle '''') (tasks (fetched_app demo_todos) ! k)] \<and>
     tasks_ref s' = tasks_ref (fetched_app demo_todos) \<and>
     filter_status s' = filter_status (fetched_app demo_todos) \<and>
     toasts s' = toasts (fetched_app demo_todos) \<and> alerts s' = alerts (fetched_app demo_todos))"
  using cell_edit_step [OF reachable_fetched_app [of demo_todos], where n = 0 and c = "EditTitle ''''"]
    reachable_fetched_app [of demo_todos]
  by (simp add: shown_rows_def initial_tasks_def)

text \<open>
  C29: cell edits keep the store's type: every id stays where it was (the id column is not
  editable) and every status stays among the three the select editor offers, so an edit
  neither breaks nor repairs the store invariant.
\<close>

theorem cell_edit_store_inv:
  assumes "reachable s" and "step s (CellEdited n c) = Inr s'"
  shows "map task_id (tasks s') = map task_id (tasks s) \<and> (store_inv (tasks s') \<longleftrightarrow> store_inv (tasks s))"
proof -
  from assms(1) have "app_inv s" by (rule reachable_app_inv)
  then obtain g where tg: "tables s = [g]" and rows: "grid_rows g = tasks s"
    and si: "status_inv s" by (rule app_invD)
  from assms(2) have s': "s' = cell_edited n c s" by (simp add: app_simps)
  show ?thesis
    using si tg rows
    by (auto simp: s' cell_edited_fields store_inv_def status_inv_def)
qed

theorem cell_edit_store_inv_witness:
  "\<exists>s'. reachable (fetched_app demo_todos) \<and>
     step (fetched_app demo_todos) (CellEdited 0 (EditStatus 2)) = Inr s' \<and>
     map task_id (tasks s') = [1, 2] \<and>
     (store_inv (tasks s') \<longleftrightarrow> store_inv (tasks (fetched_app demo_todos)))"
proof -
  obtain s' where st: "step (fetched_app demo_todos) (CellEdited 0 (EditStatus 2)) = Inr s'"
    by (simp add: app_simps)
  from cell_edit_store_inv [OF reachable_fetched_app st] st reachable_fetched_app [of demo_todos]
  show ?thesis by (auto simp: initial_tasks_def)
qed

text \<open>
  C32: the store can always be emptied: from every reachable state some sequence of events
  (choosing "All" when the filter hides every row, then deleting the first shown row, over
  and over) runs without error to a state with no tasks.  Each delete removes at least the
  clicked task, so the sequence is at most twice as long as the store.
\<close>

theorem store_can_be_emptied:
  assumes "reachable s"
  shows "\<exists>es s'. run s es = Inr s' \<and> tasks s' = []"
  using assms
proof (induction "length (tasks s)" arbitrary: s rule: less_induct)
  case less
  show ?case
  proof (cases "tasks s = []")
    case True
    then have "run s [] = Inr s \<and> tasks s = []" by simp
    then show ?thesis by blast
  next
    case False
    from reach_shown_row [OF less.prems False] obtain es1 s1 where
      r1: "run s es1 = Inr s1" and rs1: "reachable s1" and t1: "tasks s1 = tasks s"
      and sh: "shown_rows s1 \<noteq> []" by blast
    from rs1 have inv: "app_inv s1" by (rule reachable_app_inv)
    from sh have "0 < length (shown_rows s1)" by simp
    note del = delete_click_app_inv [OF inv this]
    define s2 where "s2 = table_effect (notify ''Task deleted successfully''
      (set_tasks (delete_by_id (tasks s1) (task_id (shown_rows s1 ! 0))) s1))"
    from del have st: "step s1 (DeleteClick 0) = Inr s2" by (simp add: s2_def)
    from del have "length (tasks s2) < length (tasks s)"
      by (simp add: s2_def set_tasks_def notify_def t1 [symmetric] length_delete_by_id_less)
    moreover from rs1 st have "reachable s2" by (rule reachable.step)
    ultimately obtain es s' where "run s2 es = Inr s'" and "tasks s' = []" using less.hyps by blast
    with r1 st have "run s (es1 @ DeleteClick 0 # es) = Inr s' \<and> tasks s' = []"
      by (simp add: run_append)
    then show ?thesis by blast
  qed
qed

theorem store_can_be_emptied_witness:
  "reachable (fetched_app demo_todos) \<and>
   (\<exists>es s'. run (fetched_app demo_todos) es = Inr s' \<and> tasks s' = [])"
  using store_can_be_emptied [OF reachable_fetched_app [of demo_todos]] reachable_fetched_app
  by blast

text \<open>
  C27: adding a task and then clicking the delete cell of the new last row gives back the
  store as it was, when the computed id is fresh: the rebuilt grid shows the new task last,
  the click deletes exactly its id, and the grid shows the old store again.
\<close>

theorem add_then_delete_roundtrip:
  assumes "reachable s" and "title (new_task s) \<noteq> ''''" and "description (new_task s) \<noteq> ''''"
    and "int (length (tasks s)) + 1 \<notin> task_id ` set (tasks s)"
  shows "\<exists>s1 s2. step s AddClick = Inr s1 \<and> step s1 (DeleteClick (length (tasks s))) = Inr s2 \<and>
    tasks s2 = tasks s \<and> shown_rows s2 = tasks s"
proof -
  from assms(1) have "app_inv s" by (rule reachable_app_inv)
  then obtain g where tg: "tables s = [g]" by (rule app_invD)
  with assms(2-4) show ?thesis
    by (simp add: app_simps set_tasks_def notify_def append_task_def delete_by_id_def
        visible_rows_def nth_append shown_rows_def map_nth_upt)
qed

theorem add_then_delete_roundtrip_witness:
  "reachable (filled_app demo_todos) \<and> title (new_task (filled_app demo_todos)) \<noteq> '''' \<and>
   description (new_task (filled_app demo_todos)) \<noteq> '''' \<and>
   int (length (tasks (filled_app demo_todos))) + 1 \<notin> task_id ` set (tasks (filled_app demo_todos)) \<and>
   (\<exists>s1 s2. step (filled_app demo_todos) AddClick = Inr s1 \<and> step s1 (DeleteClick 2) = Inr s2 \<and>
     tasks s2 = tasks (filled_app demo_todos) \<and> shown_rows s2 = tasks (filled_app demo_todos))"
proof -
  have h: "title (new_task (filled_app demo_todos)) \<noteq> ''''"
    "description (new_task (filled_app demo_todos)) \<noteq> ''''"
    "int (length (tasks (filled_app demo_todos))) + 1 \<notin> task_id ` set (tasks (filled_app demo_todos))"
    by (simp_all add: initial_tasks_def)
  from add_then_delete_roundtrip [OF reachable_filled_app h] reachable_filled_app h
  show ?thesis by (simp add: initial_tasks_def numeral_2_eq_2)
qed

text \<open>
  C34: a cell edit leaves the grid's rows where they are: the edited row is shown at the
  same place with its new value, even when it no longer passes the filter or is out of
  sorted order, and every other shown row stays.  Only the next filtering or rebuild
  re-evaluates it.
\<close>

theorem cell_edit_view:
  assumes "reachable s" and "n < length (shown_rows s)"
  shows "\<exists>s'. step s (CellEdited n c) = Inr s' \<and>
    shown_rows s' = (shown_rows s)[n := edit_row c (shown_rows s ! n)] \<and> active_sort s' = active_sort s"
proof -
  from assms(1) have "app_inv s" by (rule reachable_app_inv)
  then obtain g where tg: "tables s = [g]" and vo: "view_ok g" by (rule app_invD)
  from assms(2) tg have n: "n < length (visible_rows g)" by (simp add: shown_rows_def)
  note k = visible_rows_nth [OF vo n]
  from vo n have "distinct (grid_view g)" "n < length (grid_view g)"
    by (simp_all add: view_ok_def visible_rows_def)
  note upd = map_nth_update_distinct [OF this k(1), of "edit_row c (grid_rows g ! (grid_view g ! n))"]
  from n tg k(2) upd show ?thesis
    by (simp add: app_simps cell_edited_def Let_def shown_rows_def active_sort_def visible_rows_def)
qed

theorem cell_edit_view_witness:
  "reachable (fetched_app demo_todos) \<and> 0 < length (shown_rows (fetched_app demo_todos)) \<and>
   (\<exists>s'. step (fetched_app demo_todos) (CellEdited 0 (EditStatus 2)) = Inr s' \<and>
     shown_rows s' = (shown_rows (fetched_app demo_todos))[0 := edit_row (EditStatus 2)
       (shown_rows (fetched_app demo_todos) ! 0)] \<and>
     active_sort s' = active_sort (fetched_app demo_todos))"
  using cell_edit_view [OF reachable_fetched_app [of demo_todos], where n = 0 and c = "EditStatus 2"]
    reachable_fetched_app [of demo_todos]
  by (simp add: shown_rows_def initial_tasks_def)

end
