(* ===== verification/Render.thy ===== *)
theory Render
  imports TaskManager
begin

text \<open>
  The rendered page (the JSX of lines 102--160, the grid of lines 33--58 and the toast
  elements of lines 95--98) as a function of the component state.  The form inputs and
  both selects are controlled: their \<^verbatim>\<open>value\<close> attributes are the state hooks
  \<^verbatim>\<open>newTask.title\<close>, \<^verbatim>\<open>newTask.description\<close>, \<^verbatim>\<open>newTask.status\<close> and
  \<^verbatim>\<open>filterStatus\<close>, so the page shows exactly what the state holds.  A select shows
  its options as (value, label) pairs; the grid shows its column titles and the rows of the
  first live Tabulator instance; each toast element shows its message.  Class names and
  layout are styling and carry no state.
\<close>

record page =
  page_heading :: string
  title_value :: string
  description_value :: string
  status_value :: string
  status_choices :: "(string \<times> string) list"
  filter_value :: string
  filter_choices :: "(string \<times> string) list"
  column_titles :: "string list"
  table_rows :: "task list"
  toast_messages :: "string list"

definition filter_labels :: "string list" where
  "filter_labels = [''All'', ''To Do'', ''In Progress'', ''Done'']"

definition grid_column_titles :: "string list" where
  "grid_column_titles = [''Task ID'', ''Title'', ''Description'', ''Status'', ''Actions'']"

definition render :: "app \<Rightarrow> page" where
  "render s =
     \<lparr>page_heading = ''Task List Manager'',
      title_value = title (new_task s), description_value = description (new_task s),
      status_value = status (new_task s), status_choices = map (\<lambda>v. (v, v)) status_options,
      filter_value = filter_status s, filter_choices = zip filter_options filter_labels,
      column_titles = grid_column_titles, table_rows = shown_rows s,
      toast_messages = map fst (toasts s)\<rparr>"

lemma render_fields [simp]:
  "title_value (render s) = title (new_task s)"
  "description_value (render s) = description (new_task s)"
  "status_value (render s) = status (new_task s)"
  "filter_value (render s) = filter_status s"
  "table_rows (render s) = shown_rows s"
  "toast_messages (render s) = map fst (toasts s)"
  "map fst (status_choices (render s)) = status_options"
  "map fst (filter_choices (render s)) = filter_options"
  by (simp_all add: render_def filter_labels_def filter_options_def comp_def)

text \<open>
  C35: after an accepted submission the rendered page has an empty form with "To Do"
  selected, the grid's last row is the new task, and the last toast says
  "Task added successfully".
\<close>

theorem render_after_add:
  assumes "reachable s" and "title (new_task s) \<noteq> ''''" and "description (new_task s) \<noteq> ''''"
  shows "\<exists>s'. step s AddClick = Inr s' \<and>
    title_value (render s') = '''' \<and> description_value (render s') = '''' \<and>
    status_value (render s') = ''To Do'' \<and>
    table_rows (render s') = tasks s @ [new_task_of (tasks s) (new_task s)] \<and>
    last (toast_messages (render s')) = ''Task added successfully''"
proof -
  from assms(1) have "app_inv s" by (rule reachable_app_inv)
  then obtain g where "tables s = [g]" by (rule app_invD)
  with assms(2,3) show ?thesis
    by (simp add: app_simps set_tasks_def notify_def show_toast_def append_task_def empty_draft_def)
qed

theorem render_after_add_witness:
  "reachable (filled_app demo_todos) \<and> title (new_task (filled_app demo_todos)) \<noteq> '''' \<and>
   description (new_task (filled_app demo_todos)) \<noteq> '''' \<and>
   (\<exists>s'. step (filled_app demo_todos) AddClick = Inr s' \<and>
     title_value (render s') = '''' \<and> description_value (render s') = '''' \<and>
     status_value (render s') = ''To Do'' \<and>
     table_rows (render s') = tasks (filled_app demo_todos) @
       [new_task_of (tasks (filled_app demo_todos)) (new_task (filled_app demo_todos))] \<and>
     last (toast_messages (render s')) = ''Task added successfully'')"
proof -
  note r = reachable_filled_app
  have "title (new_task (filled_app demo_todos)) \<noteq> ''''"
    and "description (new_task (filled_app demo_todos)) \<noteq> ''''" by simp_all
  from render_after_add [OF r this] r show ?thesis by simp
qed

text \<open>
  C36: in every reachable state the page's grid shows only tasks of the store, none of them
  twice, and with "All" selected in the filter dropdown it shows every task of the store
  (in whatever order the header sort gives).
\<close>

theorem render_table_rows:
  assumes "reachable s"
  shows "mset (table_rows (render s)) \<subseteq># mset (tasks s) \<and>
    (filter_value (render s) = '''' \<longrightarrow> mset (table_rows (render s)) = mset (tasks s))"
proof -
  from assms have "app_inv s" by (rule reachable_app_inv)
  then obtain g where tg: "tables s = [g]" and rows: "grid_rows g = tasks s" and vo: "view_ok g"
    and flt: "grid_filter g = None \<or> grid_filter g = Some (filter_status s) \<and> filter_status s \<noteq> ''''"
    by (rule app_invD)
  have "filter_status s = '''' \<Longrightarrow> grid_filter g = None" using flt by auto
  with mset_visible_rows_le [OF vo] tg rows show ?thesis by (simp add: shown_rows_def)
qed

theorem render_table_rows_witness:
  "reachable (fetched_app demo_todos) \<and>
   mset (table_rows (render (fetched_app demo_todos))) \<subseteq># mset (tasks (fetched_app demo_todos)) \<and>
   filter_value (render (fetched_app demo_todos)) = '''' \<and>
   mset (table_rows (render (fetched_app demo_todos))) = mset (tasks (fetched_app demo_todos))"
  using render_table_rows [OF reachable_fetched_app [of demo_todos]] reachable_fetched_app
  by (simp add: init_app_def)

end
