(* ===== verification/Spec2Isabelle.thy ===== *)
theory Spec2Isabelle
  imports Render
begin

text \<open>
  \<^bold>\<open>A verification development of the task-list manager\<close>
  (\<^verbatim>\<open>src/src/TaskManager.jsx\<close>, one React component of 162 lines).

  \<^bold>\<open>The program.\<close>  One component holds three state hooks: the task array
  \<^verbatim>\<open>tasks\<close>, the filter value \<^verbatim>\<open>filterStatus\<close> and the form draft
  \<^verbatim>\<open>newTask\<close>.  Three effects run after renders: the seed fetch on mount (lines 16--28),
  the construction of a Tabulator grid whenever the \<^verbatim>\<open>tasks\<close> array changes, with the
  destruction of the previous grid as cleanup (lines 31--64), and the application of the
  status filter to the grid whenever \<^verbatim>\<open>filterStatus\<close> changes (lines 82--91).  Event
  handlers: the form inputs and the status select (lines 113, 120, 125),
  \<^verbatim>\<open>handleAddTask\<close> (lines 67--79), the delete column's \<^verbatim>\<open>cellClick\<close>
  (lines 50--55), the filter select (line 148), and the grid's own cell editors
  (lines 37--45); \<^verbatim>\<open>showToast\<close> (lines 94--100) shows a message for 3000 ms.  The
  parts interact through the state hooks (handlers write them, React re-renders, and the
  effects whose dependency lists changed run) and, for the cell editors, through the task
  objects the store and the grid share.

  \<^bold>\<open>The theories.\<close>
  \<^item> \<open>Prelude\<close>: the named collections \<open>store_simps\<close> and \<open>app_simps\<close>, the
    association-list view \<open>keyed\<close>, list facts on filtering by a key, and facts on
    views of a list through positions (sorting positions by a key of what they point to,
    multisets of distinct views).
  \<^item> \<open>Task\<close>: the data model; \<open>draft\<close> is \<^verbatim>\<open>newTask\<close>, \<open>task\<close> extends it
    with \<open>task_id\<close> as \<^verbatim>\<open>{id: ..., ...newTask}\<close> does; the select options; the
    store invariant \<open>store_inv\<close> of the specification (unique ids, valid statuses).
  \<^item> \<open>Store\<close> (Task Store): append-one \<open>append_task\<close> (lines 69--73), remove-by-id
    \<open>delete_by_id\<close> (line 52), the abstraction \<open>store_map\<close> to a finite map from
    ids to tasks, and the reference id scheme \<open>next_id\<close> (largest id plus one).  Lemmas:
    what deletion keeps and removes (C7, C8), refinement of the map's delete and insert
    (C9, C10), the add/delete round trip (C31), and agreement of the code's id with the
    reference while ids are \<open>1..n\<close> (C33).
  \<^item> \<open>Seed\<close> (Remote Seed Loader): \<open>seed_task\<close> and \<open>initial_tasks\<close>
    (\<^verbatim>\<open>data.slice(0, 20).map(...)\<close>, lines 20--25).  Lemmas C17, C18.
  \<^item> \<open>Grid\<close> (Grid View Adapter): a Tabulator instance as its row data, its status
    filter, its header sort, its displayed rows (positions in the row data, top to bottom)
    and the array captured by its delete closure; \<open>new_table\<close>, \<open>status_filter\<close>
    (filter, then stable sort by the active sorter), \<open>header_sort\<close> (a click on a
    column header), \<open>visible_rows\<close> and what a cell editor writes
    (\<open>edit_row\<close>).  Tabulator is a library: its filtering, sorting and editing are
    modelled from the calls and column definitions the code passes and from Tabulator's
    defaults (every column header sorts, ascending first).
  \<^item> \<open>Toast\<close> (Notification Service): live toasts as messages with the time their
    removal timer fires; \<open>show_toast\<close>, \<open>expire_toasts\<close>.
  \<^item> \<open>TaskManager\<close>: the component as a deterministic state machine.  \<open>app\<close> is the
    state (hooks plus the DOM the code writes), \<open>event\<close> the inputs (settled fetch, typing,
    selects, clicks, cell edits, header clicks, time), \<open>handle\<close> the handlers, \<open>commit\<close> the
    effects of one React commit, \<open>step = commit \<circ> handle\<close>, \<open>run\<close> a sequence of
    events, \<open>reachable\<close> the states reachable from \<open>mount\<close>.  The one exception the
    code can raise, a \<^verbatim>\<open>TypeError\<close> from \<^verbatim>\<open>findTable(...)[0]\<close> when no grid
    is live, is the \<open>Inl\<close> value of \<open>step\<close>.  The invariant \<open>app_inv\<close> (one
    live grid built from the current array, valid statuses, pending toast timers) holds in
    every reachable state by rule induction; the component's properties C1--C6, C11, C13,
    C14, C16, C19--C23, C26--C29, C32 and C34 are stated there.
  \<^item> \<open>Render\<close> (Rendering markup): \<open>render\<close> maps a state to the page it shows
    (controlled inputs and selects, grid columns and rows, toast texts).  C35, C36.
  \<^item> This theory: properties that span the store, the seed loader, the grid and the
    handlers over whole runs (C12, C15, C24, C25, C30).

  \<^bold>\<open>What the theorems show.\<close>  Every event is handled without an exception (C3); the
  grid always shows the current store and exactly one grid is live (C1); statuses stay in
  the enumeration (C2), also under cell edits, which never touch ids (C29); adding,
  rejecting and deleting behave as specified (C4--C8, C25, C35), and adding then deleting
  the new row restores the store (C27, C31); the list store refines a finite map as long as
  ids are fresh (C9, C10); the store has four writers only (C16); filtering shows exactly
  the tasks of the selected status in the active sort order (C13), a header click only
  reorders (C26), and the grid never shows a task twice or one that is not in the store
  (C36); toasts live exactly 3000 ms (C22, C23); the seed is the first 20 records, mapped as
  specified (C17--C19, C24), and it is requested only on mount (C21); the store can always
  be emptied (C32, a progress property proved by complete induction on its length).
  They also show defects of the code: an id computed as \<^verbatim>\<open>tasks.length + 1\<close>
  collides after a deletion, and a deletion then removes every task with that id (C11, C12,
  C7), whereas it agrees with a collision-free scheme only while no task has been deleted
  (C33); a store change rebuilds the grid without the selected filter while the dropdown
  still shows it (C14, C15); a seed response that arrives after the user has added tasks
  discards them (C19); and a cell edit writes the store without any validation, so a task
  can get an empty title (C28, C30), and stays shown even when it no longer passes the
  filter (C34).

  \<^bold>\<open>Modelling choices.\<close>  Strings are HOL strings; JavaScript truthiness of a string is
  non-emptiness.  Ids are \<open>int\<close>: a JavaScript number computed as a length plus one never
  approaches \<open>2^53\<close>.  Time is a count of milliseconds and only the passage of time
  removes toasts.  The select elements can only produce their option values, so their
  events carry an option index; a click or a cell edit carries the index of a shown row.
  Tabulator keeps the objects of the array it is given as row data, so an editor's write
  is a write into the store's object: the model updates the one live array at the row's
  position, which is exact because in every reachable state the grid's rows, the delete
  closure's array and \<^verbatim>\<open>tasks\<close> are the same array (C1) and each object sits at one
  position.  The grid's displayed rows are state: filtering recomputes them (filter, then
  stable sort), a header click re-sorts them, and a cell edit leaves them as they are.  The
  string sorters use the browser's \<^verbatim>\<open>localeCompare\<close>, whose collation is not part of the
  program: a header click carries the rank of strings under that collation, and the
  theorems hold for every rank (a total preorder on the column's values).  No fuel or bound
  is needed: every loop of the code is a list traversal, structural recursion here.

  \<^bold>\<open>Not modelled.\<close>  CSS classes, layout and the toast's position and style (pure
  styling, no state), the network and JSON parsing (an input: the parsed array or a
  failure), a cell edit abandoned without a value (it changes nothing), multi-column sorting
  by a modifier-key header click, and React's development-mode double effects.
\<close>

text \<open>A seed response of 25 records with ids 1 to 25, for the end-to-end scenario.\<close>

abbreviation batch25 :: "todo list" where
  "batch25 \<equiv> map (\<lambda>k. \<lparr>todo_id = int k, todo_title = ''t'', completed = odd k\<rparr>) [1..<26]"

text \<open>
  C12: the computed id is not collision-safe: from the mounted component, a seed of two
  tasks, the deletion of the first and one accepted submission lead to a store holding two
  tasks with the same id.
\<close>

theorem duplicate_ids_reachable:
  "\<exists>s. reachable s \<and> \<not> distinct (map task_id (tasks s))"
proof -
  have "case run (fetched_app demo_todos)
              [DeleteClick 0, TitleInput ''x'', DescriptionInput ''y'', AddClick] of
          Inl err \<Rightarrow> False | Inr s \<Rightarrow> \<not> distinct (map task_id (tasks s))"
    by (simp add: run_eval_simps)
  then obtain s where "run (fetched_app demo_todos)
      [DeleteClick 0, TitleInput ''x'', DescriptionInput ''y'', AddClick] = Inr s"
    and "\<not> distinct (map task_id (tasks s))"
    by (rule run_caseE)
  then show ?thesis by (blast intro: reachable_run_fetched)
qed

text \<open>
  C15: the status filter does not survive a change of the store: after selecting "Done"
  and deleting a row, the dropdown still says "Done" while the grid shows a "To Do" task.
\<close>

theorem filter_lost_after_delete:
  "\<exists>s. reachable s \<and> filter_status s = ''Done'' \<and>
       \<not> list_all (\<lambda>t. status t = ''Done'') (shown_rows s)"
proof -
  have "case run (fetched_app [\<lparr>todo_id = 1, todo_title = ''a'', completed = False\<rparr>,
                               \<lparr>todo_id = 2, todo_title = ''b'', completed = True\<rparr>,
                               \<lparr>todo_id = 3, todo_title = ''c'', completed = True\<rparr>])
              [FilterSelect 3, DeleteClick 0] of
          Inl err \<Rightarrow> False
        | Inr s \<Rightarrow> filter_status s = ''Done'' \<and>
                   \<not> list_all (\<lambda>t. status t = ''Done'') (shown_rows s)"
    by (simp add: run_eval_simps)
  then obtain s where "run (fetched_app [\<lparr>todo_id = 1, todo_title = ''a'', completed = False\<rparr>,
                               \<lparr>todo_id = 2, todo_title = ''b'', completed = True\<rparr>,
                               \<lparr>todo_id = 3, todo_title = ''c'', completed = True\<rparr>])
              [FilterSelect 3, DeleteClick 0] = Inr s"
    and "filter_status s = ''Done'' \<and> \<not> list_all (\<lambda>t. status t = ''Done'') (shown_rows s)"
    by (rule run_caseE)
  then show ?thesis by (blast intro: reachable_run_fetched)
qed

text \<open>
  C24: the end-to-end scenario of the specification (section 8): a response of at least 20
  records with distinct ids gives a store of exactly the first 20; one accepted submission
  gives 21; deleting the first seeded row gives 20 again, that id is gone and every other
  task is unchanged and in order.
\<close>

theorem seed_add_delete_scenario:
  assumes m: "mount = Inr s0" and len: "20 \<le> length data"
    and dist: "distinct (map todo_id (take 20 data))"
    and fresh: "21 \<notin> set (map todo_id (take 20 data))"
    and t: "t \<noteq> ''''" and d: "d \<noteq> ''''"
  shows "\<exists>s1 s2 s3.
     run s0 [FetchSettled (Some data)] = Inr s1 \<and> tasks s1 = initial_tasks data \<and>
     length (tasks s1) = 20 \<and>
     run s1 [TitleInput t, DescriptionInput d, AddClick] = Inr s2 \<and> length (tasks s2) = 21 \<and>
     run s2 [DeleteClick 0] = Inr s3 \<and> tasks s3 = tl (tasks s2) \<and> length (tasks s3) = 20 \<and>
     todo_id (hd data) \<notin> task_id ` set (tasks s3)"
proof -
  obtain x xs where data: "data = x # xs" using len by (cases data) auto
  from m have s0: "s0 = mounted_app" by (simp add: mount_eq)
  have len19: "length (take 19 xs) = 19" using len by (simp add: data)
  have rest: "todo_id x \<notin> task_id ` set (map seed_task (take 19 xs))"
    and x21: "todo_id x \<noteq> 21"
    using dist fresh by (auto simp: data)
  show ?thesis
    using len19 rest x21 t d
    by (simp add: s0 init_app_def data app_simps set_tasks_def notify_def initial_tasks_def
        delete_by_id_def append_task_def shown_rows_def)
qed

theorem seed_add_delete_scenario_witness:
  "mount = Inr mounted_app \<and> 20 \<le> length batch25 \<and> distinct (map todo_id (take 20 batch25)) \<and>
   21 \<notin> set (map todo_id (take 20 batch25)) \<and>
   (\<exists>s1 s2 s3.
     run mounted_app [FetchSettled (Some batch25)] = Inr s1 \<and> tasks s1 = initial_tasks batch25 \<and>
     length (tasks s1) = 20 \<and>
     run s1 [TitleInput ''Write'', DescriptionInput ''the report'', AddClick] = Inr s2 \<and>
     length (tasks s2) = 21 \<and>
     run s2 [DeleteClick 0] = Inr s3 \<and> tasks s3 = tl (tasks s2) \<and> length (tasks s3) = 20 \<and>
     todo_id (hd batch25) \<notin> task_id ` set (tasks s3))"
proof -
  have m: "mount = Inr mounted_app" by (rule mount_eq)
  have h: "20 \<le> length batch25" "distinct (map todo_id (take 20 batch25))"
    "21 \<notin> set (map todo_id (take 20 batch25))" "''Write'' \<noteq> ''''" "''the report'' \<noteq> ''''"
    by (simp_all add: upt_rec)
  show ?thesis using seed_add_delete_scenario [OF m h] m h by blast
qed

text \<open>
  C25: a task submitted without touching the status select gets the status "To Do": the
  draft starts as, and is reset to, the default of lines 9--13 and 74.
\<close>

theorem default_status_to_do:
  assumes "new_task s = empty_draft" and "t \<noteq> ''''" and "d \<noteq> ''''"
  shows "\<exists>s'. run s [TitleInput t, DescriptionInput d, AddClick] = Inr s' \<and>
    tasks s' = tasks s @
      [\<lparr>title = t, description = d, status = ''To Do'', task_id = int (length (tasks s)) + 1\<rparr>]"
  using assms
  by (simp add: app_simps set_tasks_def notify_def append_task_def new_task_of_def empty_draft_def)

theorem default_status_to_do_witness:
  "new_task (fetched_app demo_todos) = empty_draft \<and>
   (\<exists>s'. run (fetched_app demo_todos) [TitleInput ''Write'', DescriptionInput ''the report'', AddClick] = Inr s' \<and>
     tasks s' = tasks (fetched_app demo_todos) @
       [\<lparr>title = ''Write'', description = ''the report'', status = ''To Do'', task_id = 3\<rparr>])"
  using default_status_to_do [of "fetched_app demo_todos" "''Write''" "''the report''"]
  by (simp add: init_app_def initial_tasks_def)

text \<open>
  C30: the grid's title editor bypasses the form's validation: from the seeded component, one
  cell edit leaves a task with an empty title in the store, although the specification
  requires a non-empty title and the add form rejects one.  The store invariant (unique
  ids, valid statuses) still holds there.
\<close>

theorem empty_title_reachable:
  "\<exists>s. reachable s \<and> store_inv (tasks s) \<and> list_ex (\<lambda>t. title t = '''') (tasks s)"
proof -
  have "case run (fetched_app demo_todos) [CellEdited 0 (EditTitle '''')] of
          Inl err \<Rightarrow> False
        | Inr s \<Rightarrow> store_inv (tasks s) \<and> list_ex (\<lambda>t. title t = '''') (tasks s)"
    by (simp add: run_eval_simps cell_edited_def store_inv_def Let_def
        valid_status_iff)
  then obtain s where "run (fetched_app demo_todos) [CellEdited 0 (EditTitle '''')] = Inr s"
    and "store_inv (tasks s) \<and> list_ex (\<lambda>t. title t = '''') (tasks s)"
    by (rule run_caseE)
  then show ?thesis by (blast intro: reachable_run_fetched)
qed

end
